theory Spec2Isabelle
  imports Main "HOL-Library.Sublist" "HOL-Library.Multiset" "HOL-Library.Char_ord"
begin

section \<open>Python values shared by the modules\<close>

text \<open>
  Exceptions are values. The classes that the code names or that its library calls raise
  are constructors of their own; \<open>KeyboardInterrupt\<close> and \<open>SystemExit\<close> derive
  from \<open>BaseException\<close> only, so an \<open>except Exception\<close> clause lets them pass.
\<close>

datatype exn =
    TypeError
  | AttributeError
  | KeyError
  | IndexError
  | ValueError
  | OSError
  | CalledProcessError
  | ImportError
  | DistributionNotFound
  | VersionConflict
  | OtherError string
  | KeyboardInterrupt
  | SystemExit int

fun is_Exception :: "exn \<Rightarrow> bool" where
  "is_Exception KeyboardInterrupt = False"
| "is_Exception (SystemExit c) = False"
| "is_Exception e = True"

section \<open>utils.py: the file opener\<close>

datatype std_stream = Stdin | Stdout

text \<open>The argument \<open>f\<close> of \<open>open_file\<close>: one of the two standard streams, or a string.\<close>

datatype target = Stream std_stream | Name string

datatype codec = Bz2 | Gzip | Plain

text \<open>
  What \<open>open_file\<close> returns: a standard stream, or the file object that \<open>bz2.open\<close>,
  \<open>gzip.open\<close> or the builtin \<open>open\<close> made for a name and a mode.
\<close>

datatype handle = Std std_stream | File codec string string

text \<open>
  The file system decides whether opening a name succeeds; it is a parameter. \<open>None\<close>
  means that the call succeeds, \<open>Some e\<close> that it raises \<open>e\<close>.
\<close>

type_synonym filesystem = "codec \<Rightarrow> string \<Rightarrow> string \<Rightarrow> exn option"

definition open_with :: "filesystem \<Rightarrow> codec \<Rightarrow> string \<Rightarrow> string \<Rightarrow> exn + handle" where
  "open_with fs c f mode = (case fs c f mode of Some e \<Rightarrow> Inl e | None \<Rightarrow> Inr (File c f mode))"

text \<open>
  \<^verbatim>\<open>
  def open_file(f):
      if f is sys.stdout or f is sys.stdin:
          return f
      elif f == '-':
          return sys.stdin if 'r' in mode else sys.stdout
      elif f.endswith('.bz2'):
          return bz2.open(f, mode)
      elif f.endswith('.gz'):
          return gzip.open(f, mode)
      else:
          return open(f, mode)
  \<close>
\<close>

fun open_file :: "filesystem \<Rightarrow> string \<Rightarrow> target \<Rightarrow> exn + handle" where
  "open_file fs mode (Stream s) = Inr (Std s)"
| "open_file fs mode (Name f) =
     (if f = ''-'' then Inr (Std (if CHR ''r'' \<in> set mode then Stdin else Stdout))
      else if suffix ''.bz2'' f then open_with fs Bz2 f mode
      else if suffix ''.gz'' f then open_with fs Gzip f mode
      else open_with fs Plain f mode)"

definition opener :: "filesystem \<Rightarrow> string \<Rightarrow> (target \<Rightarrow> exn + handle)" where
  "opener fs mode = open_file fs mode"

section \<open>utils.py: the grouping helper\<close>






section \<open>The namespace and the logging set-up\<close>

text \<open>
  The attributes that \<open>main\<close> reads from the \<open>argparse\<close> namespace. \<open>subparser_name\<close>
  is \<open>None\<close> when no subcommand was given; \<open>action\<close> exists only after the \<open>help\<close>
  sub-parser has run; \<open>attrs\<close> stands for what a plugin's own options stored.
\<close>

record namespace =
  log :: handle
  verbosity :: int
  subparser_name :: "string option"
  action :: "string list option"
  attrs :: "(string \<times> string) list"

datatype loglevel = DEBUG | INFO | WARNING | ERROR

text \<open>The numbers behind the level names in Python's \<open>logging\<close> module.\<close>

fun level_no :: "loglevel \<Rightarrow> nat" where
  "level_no DEBUG = 10"
| "level_no INFO = 20"
| "level_no WARNING = 30"
| "level_no ERROR = 40"

text \<open>
  \<^verbatim>\<open>
  loglevel = {
      0: logging.ERROR,
      1: logging.WARNING,
      2: logging.INFO,
      3: logging.DEBUG,
  }.get(namespace.verbosity, logging.DEBUG)
  \<close>
\<close>

definition loglevel_table :: "(int \<times> loglevel) list" where
  "loglevel_table = [(0, ERROR), (1, WARNING), (2, INFO), (3, DEBUG)]"

definition loglevel_of :: "int \<Rightarrow> loglevel" where
  "loglevel_of v = (case map_of loglevel_table v of Some l \<Rightarrow> l | None \<Rightarrow> DEBUG)"

record log_config =
  stream :: handle
  format :: string
  level :: loglevel

text \<open>
  \<open>setup_logging\<close> ends in \<open>logging.basicConfig(stream=..., format=..., level=...)\<close>;
  the model returns the three arguments of that call.
\<close>

definition setup_logging :: "namespace \<Rightarrow> log_config" where
  "setup_logging ns =
     \<lparr> stream = log ns,
       format = (if verbosity ns > 1
                 then ''%(levelname)s classifier %(lineno)s %(message)s''
                 else ''classifier %(message)s''),
       level = loglevel_of (verbosity ns) \<rparr>"

section \<open>__init__.py: the version resolver\<close>

text \<open>
  What the code hands to the \<open>logging\<close> module: a level and either a text or an
  exception (\<open>log.debug(e)\<close>, \<open>logging.warn(e)\<close>, \<open>log.error(e)\<close>). The functions
  below return the records they submit, in order, next to their result.
\<close>

datatype logmsg = Text string | Error exn

type_synonym log_record = "loglevel \<times> logmsg"

text \<open>
  Python 3 keeps text (\<open>str\<close>) and raw bytes apart. \<open>setup.py\<close> refuses Python 2, and
  under Python 3 \<open>subprocess.check_output(cmd, stderr=devnull)\<close>, called as here with no
  text mode and no encoding, returns \<open>bytes\<close>. The model keeps both kinds of value so
  that the regular-expression step can be stated for either.
\<close>

datatype py_text = Str string | Bytes string


text \<open>
  The world outside the process, as far as \<open>version\<close> looks at it: the directory of the
  package, the outcome of running a command with \<open>subprocess.check_output\<close> (an exception
  or the captured output), and the outcome of
  \<open>pkg_resources.require(name)[0].version\<close> (an exception or the version string).
\<close>

record sys_env =
  install_dir :: string
  check_output :: "string list \<Rightarrow> exn + py_text"
  pkg_require :: "string \<Rightarrow> exn + string"

text \<open>
  \<^verbatim>\<open>
  git_cmds = (['git', '-C', install_dir, 'describe', '--tags'],  # >= 1.8.5
              ['git', 'describe', '--tags'])  # < 1.8.5
  \<close>
\<close>

definition git_cmds :: "sys_env \<Rightarrow> string list list" where
  "git_cmds env =
     [[''git'', ''-C'', install_dir env, ''describe'', ''--tags''],
      [''git'', ''describe'', ''--tags'']]"

text \<open>
  \<^verbatim>\<open>
  git_re = 'v(?P<tag>[\d.]*)-?(?P<commit>[\d.]*)-?.*'
  git_search = re.search(git_re, git_ver)
  \<close>
  On text, \<open>re.search\<close> finds the leftmost match. Everything after the letter \<open>v\<close> may
  match the empty string, so the match starts at the first \<open>v\<close>; there is none without
  a \<open>v\<close>. The two groups are greedy and nothing after them can fail, so \<open>tag\<close> is the
  longest run of digits and dots after the \<open>v\<close>, an optional \<open>-\<close> is skipped, and
  \<open>commit\<close> is the longest run of digits and dots that follows. Characters are bytes
  here, so \<open>\d\<close> is an ASCII digit.
\<close>

definition digit_or_dot :: "char \<Rightarrow> bool" where
  "digit_or_dot c = (c \<in> set ''0123456789.'')"

definition git_re_search :: "string \<Rightarrow> (string \<times> string) option" where
  "git_re_search s =
     (case dropWhile (\<lambda>c. c \<noteq> CHR ''v'') s of
        [] \<Rightarrow> None
      | v # rest \<Rightarrow>
          (let tag = takeWhile digit_or_dot rest;
               rest1 = dropWhile digit_or_dot rest;
               rest2 = (case rest1 of [] \<Rightarrow> [] | c # r \<Rightarrow> if c = CHR ''-'' then r else rest1);
               commit = takeWhile digit_or_dot rest2
           in Some (tag, commit)))"

text \<open>
  The pattern \<open>git_re\<close> is a \<open>str\<close>. Searching \<open>bytes\<close> with a \<open>str\<close> pattern raises
  \<open>TypeError\<close> (cannot use a string pattern on a bytes-like object).
\<close>

fun re_search :: "py_text \<Rightarrow> exn + (string \<times> string) option" where
  "re_search (Bytes b) = Inl TypeError"
| "re_search (Str s) = Inr (git_re_search s)"

text \<open>
  The body of the \<open>try\<close> after the command has run. When \<open>re.search\<close> returns \<open>None\<close>,
  \<open>git_search.group\<close> raises \<open>AttributeError\<close>.
  \<^verbatim>\<open>
  git_search = re.search(git_re, git_ver)
  if git_search.group('commit') == '':
      version = git_search.group('tag')
  else:
      version = '{tag}.dev{commit}'.format(**git_search.groupdict())
  \<close>
\<close>

definition git_version :: "py_text \<Rightarrow> exn + string" where
  "git_version git_ver =
     (case re_search git_ver of
        Inl e \<Rightarrow> Inl e
      | Inr None \<Rightarrow> Inl AttributeError
      | Inr (Some (tag, commit)) \<Rightarrow>
          Inr (if commit = '''' then tag else tag @ ''.dev'' @ commit))"

text \<open>The body of the \<open>try\<close> for one command: run it and parse what it printed.\<close>

definition git_attempt :: "sys_env \<Rightarrow> string list \<Rightarrow> exn + string" where
  "git_attempt env cmd =
     (case check_output env cmd of Inl e \<Rightarrow> Inl e | Inr git_ver \<Rightarrow> git_version git_ver)"

fun join :: "string \<Rightarrow> string list \<Rightarrow> string" where
  "join sep [] = ''''"
| "join sep [w] = w"
| "join sep (w # ws) = w @ sep @ join sep ws"

text \<open>
  The loop over the commands. A command that gives a version ends the loop (\<open>break\<close>);
  an exception that derives from \<open>Exception\<close> is logged at debug level and the next
  command is tried; any other exception leaves \<open>version\<close>. The result is the value of the
  variable \<open>version\<close> after the loop (\<open>None\<close> when no command gave one).
  \<^verbatim>\<open>
  for cmd in git_cmds:
      logging.debug(' '.join(cmd))
      try:
          git_ver = subprocess.check_output(cmd, stderr=devnull)
          ...
          break
      except Exception as e:
          log.debug(e)
  \<close>
\<close>

fun try_git_cmds :: "sys_env \<Rightarrow> string list list \<Rightarrow> (exn + string option) \<times> log_record list" where
  "try_git_cmds env [] = (Inr None, [])"
| "try_git_cmds env (cmd # cmds) =
     (case git_attempt env cmd of
        Inr v \<Rightarrow> (Inr (Some v), [(DEBUG, Text (join '' '' cmd))])
      | Inl e \<Rightarrow>
          if is_Exception e
          then (case try_git_cmds env cmds of
                  (r, logged) \<Rightarrow> (r, (DEBUG, Text (join '' '' cmd)) # (DEBUG, Error e) # logged))
          else (Inl e, [(DEBUG, Text (join '' '' cmd))]))"

text \<open>\<open>version or '0.0.0'\<close>: \<open>None\<close> and the empty string are both falsy.\<close>

definition or_default :: "string option \<Rightarrow> string" where
  "or_default version = (case version of None \<Rightarrow> ''0.0.0'' | Some s \<Rightarrow> if s = '''' then ''0.0.0'' else s)"

text \<open>
  \<^verbatim>\<open>
  if version is None:
      try:
          version = pkg_resources.require("classifier")[0].version
      except pkg_resources.DistributionNotFound as e:
          logging.warn(e)
  return version or '0.0.0'
  \<close>
  Only \<open>DistributionNotFound\<close> is caught; \<open>VersionConflict\<close>, which \<open>require\<close> raises
  when an installed dependency has the wrong version, is a sibling class and passes.
  Opening \<open>os.devnull\<close> for writing is taken to succeed.
\<close>

definition version :: "sys_env \<Rightarrow> (exn + string) \<times> log_record list" where
  "version env =
     (case try_git_cmds env (git_cmds env) of
        (Inl e, logged) \<Rightarrow> (Inl e, logged)
      | (Inr (Some v), logged) \<Rightarrow> (Inr (or_default (Some v)), logged)
      | (Inr None, logged) \<Rightarrow>
          (case pkg_require env ''classifier'' of
             Inr v \<Rightarrow> (Inr (or_default (Some v)), logged)
           | Inl e \<Rightarrow>
               if e = DistributionNotFound
               then (Inr (or_default None), logged @ [(WARNING, Error e)])
               else (Inl e, logged)))"

section \<open>The argparse grammar that the code builds\<close>

text \<open>
  The parsers are data. An option has its option strings and an action; the actions are
  the ones the code registers: \<open>-l/--log\<close> stores a file opened by \<open>utils.opener('a')\<close>
  under \<open>log\<close>, \<open>-v/--verbose\<close> counts into \<open>verbosity\<close>, \<open>-q/--quiet\<close> stores the
  constant 0 into \<open>verbosity\<close>, \<open>-V/--version\<close> prints the version and \<open>-h/--help\<close> the
  help text.
\<close>

datatype opt_action =
    Store_log
  | Count_verbosity
  | Store_const_verbosity int
  | Print_version string
  | Print_help

type_synonym optspec = "string list \<times> opt_action"

text \<open>
  What a sub-parser knows about its arguments: the positional \<open>action\<close> with \<open>nargs=1\<close>
  of the \<open>help\<close> sub-parser, or an argument that a plugin's \<open>build_parser\<close> added (the
  plugins are not part of this code, so such an argument is only a label).
\<close>

datatype argspec = Action_positional | Plugin_argument string

record subparser =
  sp_name :: string
  sp_help :: string
  sp_description :: "string option"
  sp_arguments :: "argspec list"

text \<open>
  \<open>subparsers\<close> is \<open>None\<close> until \<open>add_subparsers\<close> is called. \<open>add_parser\<close> stores the new
  parser under its name in a dictionary, so a name that is added again replaces the
  earlier parser: the list is kept in order of addition and looked up from its end.
\<close>

record parser =
  options :: "optspec list"
  subparsers :: "(string \<times> subparser) list option"

definition add_argument :: "parser \<Rightarrow> optspec \<Rightarrow> parser" where
  "add_argument p spec = p\<lparr>options := options p @ [spec]\<rparr>"

definition add_subparsers :: "parser \<Rightarrow> parser" where
  "add_subparsers p = p\<lparr>subparsers := Some []\<rparr>"

definition add_parser :: "parser \<Rightarrow> string \<Rightarrow> subparser \<Rightarrow> parser" where
  "add_parser p name sp =
     p\<lparr>subparsers := Some ((case subparsers p of None \<Rightarrow> [] | Some sps \<Rightarrow> sps) @ [(name, sp)])\<rparr>"

definition subparser_names :: "parser \<Rightarrow> string list" where
  "subparser_names p = (case subparsers p of None \<Rightarrow> [] | Some sps \<Rightarrow> map fst sps)"

definition find_subparser :: "parser \<Rightarrow> string \<Rightarrow> subparser option" where
  "find_subparser p name = (case subparsers p of None \<Rightarrow> None | Some sps \<Rightarrow> map_of (rev sps) name)"

text \<open>What the process has printed when \<open>argparse\<close> exits, and how a call of \<open>main\<close> ends.\<close>

datatype usage_error =
    Expected_one_argument
  | Ignored_explicit_argument
  | Ambiguous_option string
  | Invalid_choice string
  | Invalid_value string
  | Unrecognized_arguments "string list"
  | Required_arguments

datatype printed =
    Help_of_parser parser
  | Help_of_subparser subparser
  | Version_text string
  | Usage usage_error

datatype outcome = Returned string | Exited int printed | Raised exn

datatype 'a result = Ok 'a | Stop outcome

text \<open>
  \<^verbatim>\<open>
  def parse_args(parser):
      parser.add_argument('-l', '--log', metavar='FILE', default=sys.stdout,
                          type=utils.opener('a'), help='Send logging to a file')
      parser.add_argument('-v', '--verbose', action='count', dest='verbosity',
                          default=0, help=...)
      parser.add_argument('-q', '--quiet', action='store_const', dest='verbosity',
                          const=0, help='Suppress output')
      return parser
  \<close>
\<close>

definition parse_args :: "parser \<Rightarrow> parser" where
  "parse_args parser =
     (let parser = add_argument parser ([''-l'', ''--log''], Store_log);
          parser = add_argument parser ([''-v'', ''--verbose''], Count_verbosity);
          parser = add_argument parser ([''-q'', ''--quiet''], Store_const_verbosity 0)
      in parser)"

text \<open>
  The defaults of the three options: \<open>log\<close> is \<open>sys.stdout\<close> and \<open>verbosity\<close> is 0 (the
  default of \<open>-v\<close>, which is registered before \<open>-q\<close>). \<open>subparser_name\<close> is \<open>None\<close> and
  \<open>action\<close> does not exist before a sub-parser has run.
\<close>

definition default_namespace :: namespace where
  "default_namespace =
     \<lparr> log = Std Stdout, verbosity = 0, subparser_name = None, action = None, attrs = [] \<rparr>"

section \<open>How argparse reads an argument list\<close>

text \<open>
  The model follows \<open>argparse\<close> of the Python 3 releases the package was written for
  (3.5 to 3.10) on the grammar above. Each argument string is first classified, as in
  \<open>ArgumentParser._parse_optional\<close>: an empty string, a string that does not begin
  with \<open>-\<close> and the single \<open>-\<close> are positional; an option string of the parser is that
  option; \<open>opt=value\<close> is the option with an explicit argument; otherwise the option
  strings that the argument abbreviates are collected (a long option by a prefix, a short
  option by its two first characters, the rest being an explicit argument); several
  candidates are an error, and with none the argument is positional when it looks like a
  negative number or contains a space, and an unknown option otherwise.
\<close>

datatype tok = Positional | Known string "string option" | Unknown | Ambiguous

definition flags_of :: "optspec list \<Rightarrow> string list" where
  "flags_of opts = concat (map fst opts)"

definition find_action :: "optspec list \<Rightarrow> string \<Rightarrow> opt_action option" where
  "find_action opts flag = map_option snd (find (\<lambda>spec. flag \<in> set (fst spec)) opts)"

definition split_eq :: "string \<Rightarrow> string \<times> string option" where
  "split_eq s =
     (takeWhile (\<lambda>c. c \<noteq> CHR ''='') s,
      case dropWhile (\<lambda>c. c \<noteq> CHR ''='') s of [] \<Rightarrow> None | c # r \<Rightarrow> Some r)"

definition is_digit :: "char \<Rightarrow> bool" where
  "is_digit c = (c \<in> set ''0123456789'')"

text \<open>The pattern \<open>^-\d+$|^-\d*\.\d+$\<close>; \<open>$\<close> also matches before a final newline.\<close>

definition is_negative_number :: "string \<Rightarrow> bool" where
  "is_negative_number s =
     (case s of
        [] \<Rightarrow> False
      | c # r \<Rightarrow>
          c = CHR ''-'' \<and>
          (let r = (if r \<noteq> [] \<and> last r = CHR 0x0A then butlast r else r);
               whole = takeWhile is_digit r;
               rest = dropWhile is_digit r
           in (whole \<noteq> [] \<and> rest = []) \<or>
              (case rest of
                 [] \<Rightarrow> False
               | d # frac \<Rightarrow> d = CHR ''.'' \<and> frac \<noteq> [] \<and> list_all is_digit frac)))"

definition option_tuples :: "string list \<Rightarrow> string \<Rightarrow> (string \<times> string option) list" where
  "option_tuples flags arg =
     (if prefix ''--'' arg
      then (case split_eq arg of
              (option_prefix, explicit_arg) \<Rightarrow>
                map (\<lambda>flag. (flag, explicit_arg)) (filter (prefix option_prefix) flags))
      else concat (map (\<lambda>flag.
                     if flag = take 2 arg then [(flag, Some (drop 2 arg))]
                     else if prefix arg flag then [(flag, None)]
                     else []) flags))"

definition classify :: "string list \<Rightarrow> string \<Rightarrow> tok" where
  "classify flags arg =
     (if arg = [] then Positional
      else if hd arg \<noteq> CHR ''-'' then Positional
      else if arg \<in> set flags then Known arg None
      else if length arg = 1 then Positional
      else if CHR ''='' \<in> set arg \<and> fst (split_eq arg) \<in> set flags
        then Known (fst (split_eq arg)) (snd (split_eq arg))
      else (case option_tuples flags arg of
              [] \<Rightarrow> if is_negative_number arg \<or> CHR '' '' \<in> set arg then Positional else Unknown
            | [(flag, explicit_arg)] \<Rightarrow> Known flag explicit_arg
            | _ \<Rightarrow> Ambiguous))"

text \<open>
  A short option without an argument may be followed, in the same string, by further
  short options (\<open>-vvq\<close>, \<open>-vlFILE\<close>). \<open>expand_short\<close> walks through such a string as
  \<open>consume_optional\<close> does: it returns the actions met before the last one, and the last
  action with what is left as its explicit argument. A character that is no short option
  is a usage error. An empty explicit argument (\<open>-v=\<close>) makes \<open>explicit_arg[0]\<close> raise
  \<open>IndexError\<close>, which \<open>argparse\<close> does not catch. The actions are run only when the
  whole string has been read.
\<close>

fun takes_argument :: "opt_action \<Rightarrow> bool" where
  "takes_argument Store_log = True"
| "takes_argument a = False"

fun expand_short :: "optspec list \<Rightarrow> opt_action \<Rightarrow> string
    \<Rightarrow> outcome + (opt_action list \<times> opt_action \<times> string option)" where
  "expand_short opts act [] = Inl (Raised IndexError)"
| "expand_short opts act (c # cs) =
     (case find_action opts [CHR ''-'', c] of
        None \<Rightarrow> Inl (Exited 2 (Usage Ignored_explicit_argument))
      | Some act' \<Rightarrow>
          if takes_argument act' \<or> cs = []
          then Inr ([act], act', if cs = [] then None else Some cs)
          else (case expand_short opts act' cs of
                  Inl out \<Rightarrow> Inl out
                | Inr (acts, rest) \<Rightarrow> Inr (act # acts, rest)))"

definition expand :: "optspec list \<Rightarrow> string \<Rightarrow> string option
    \<Rightarrow> outcome + (opt_action list \<times> opt_action \<times> string option)" where
  "expand opts flag explicit_arg =
     (case find_action opts flag of
        None \<Rightarrow> Inl (Exited 2 (Usage Ignored_explicit_argument))
      | Some act \<Rightarrow>
          (case explicit_arg of
             None \<Rightarrow> Inr ([], act, None)
           | Some e \<Rightarrow>
               if takes_argument act then Inr ([], act, Some e)
               else if prefix ''--'' flag then Inl (Exited 2 (Usage Ignored_explicit_argument))
               else expand_short opts act e))"

text \<open>
  The parse is a walk over the argument strings with a small state. \<open>Want\<close>: the option
  \<open>-l\<close> waits for its argument. \<open>Swallow\<close>: the positional of the \<open>help\<close> sub-parser has
  just been taken, and a \<open>--\<close> that follows belongs to it and is dropped. \<open>Held\<close>: a
  \<open>--\<close> was met while a positional is still to come. \<open>Sub\<close>: the sub-command name has
  been read, and all that follows goes to its sub-parser. \<open>Stopped\<close>: the parser has
  exited or an exception was raised. \<open>dd\<close> is set once \<open>--\<close> has been passed: from there
  on every string is positional.
\<close>

datatype mode = Normal | Want | Swallow | Held | Sub string "string list" | Stopped outcome

text \<open>The positional argument a parser still expects, if any.\<close>

datatype positional = No_positional | One_action | Sub_command

record pstate =
  st_mode :: mode
  st_dd :: bool
  st_pos :: positional
  st_ns :: namespace
  st_extras :: "string list"

text \<open>
  The value of \<open>-l\<close> goes through \<open>type=utils.opener('a')\<close>. \<open>argparse\<close> turns a
  \<open>TypeError\<close> or \<open>ValueError\<close> of the type function into a usage error; any other
  exception, such as the \<open>OSError\<close> of a file that cannot be opened, is not caught.
\<close>

definition store_log :: "filesystem \<Rightarrow> string \<Rightarrow> pstate \<Rightarrow> pstate" where
  "store_log fs v st =
     (case opener fs ''a'' (Name v) of
        Inr h \<Rightarrow> st\<lparr>st_ns := (st_ns st)\<lparr>log := h\<rparr>\<rparr>
      | Inl e \<Rightarrow>
          if e = TypeError \<or> e = ValueError
          then st\<lparr>st_mode := Stopped (Exited 2 (Usage (Invalid_value v)))\<rparr>
          else st\<lparr>st_mode := Stopped (Raised e)\<rparr>)"

text \<open>The actions without an argument, run in order; the first that exits ends the parse.\<close>

fun run_action :: "printed \<Rightarrow> opt_action \<Rightarrow> pstate \<Rightarrow> pstate" where
  "run_action view Count_verbosity st =
     st\<lparr>st_ns := (st_ns st)\<lparr>verbosity := verbosity (st_ns st) + 1\<rparr>\<rparr>"
| "run_action view (Store_const_verbosity c) st = st\<lparr>st_ns := (st_ns st)\<lparr>verbosity := c\<rparr>\<rparr>"
| "run_action view (Print_version v) st = st\<lparr>st_mode := Stopped (Exited 0 (Version_text v))\<rparr>"
| "run_action view Print_help st = st\<lparr>st_mode := Stopped (Exited 0 view)\<rparr>"
| "run_action view Store_log st = st"

fun run_actions :: "printed \<Rightarrow> opt_action list \<Rightarrow> pstate \<Rightarrow> pstate" where
  "run_actions view [] st = st"
| "run_actions view (a # as) st =
     (case st_mode st of
        Stopped out \<Rightarrow> st
      | _ \<Rightarrow> run_actions view as (run_action view a st))"

definition run_last :: "filesystem \<Rightarrow> printed \<Rightarrow> opt_action \<Rightarrow> string option \<Rightarrow> pstate \<Rightarrow> pstate" where
  "run_last fs view act explicit_arg st =
     (case st_mode st of
        Stopped out \<Rightarrow> st
      | _ \<Rightarrow>
          if takes_argument act
          then (case explicit_arg of
                  Some v \<Rightarrow> store_log fs v st
                | None \<Rightarrow> st\<lparr>st_mode := Want\<rparr>)
          else run_action view act st)"

text \<open>A string read as positional: the parser's positional takes it, or it is left over.\<close>

definition take_positional :: "string \<Rightarrow> pstate \<Rightarrow> pstate" where
  "take_positional t st =
     (case st_pos st of
        No_positional \<Rightarrow> st\<lparr>st_mode := Normal, st_extras := st_extras st @ [t]\<rparr>
      | One_action \<Rightarrow>
          st\<lparr>st_mode := Swallow, st_pos := No_positional,
             st_ns := (st_ns st)\<lparr>action := Some [t]\<rparr>\<rparr>
      | Sub_command \<Rightarrow> st\<lparr>st_mode := Sub t [], st_pos := No_positional\<rparr>)"

definition read_token :: "filesystem \<Rightarrow> printed \<Rightarrow> optspec list \<Rightarrow> string \<Rightarrow> pstate \<Rightarrow> pstate" where
  "read_token fs view opts t st =
     (if st_dd st then take_positional t st
      else if t = ''--'' then
        (case st_pos st of
           No_positional \<Rightarrow> st\<lparr>st_mode := Normal, st_dd := True, st_extras := st_extras st @ [t]\<rparr>
         | _ \<Rightarrow> st\<lparr>st_mode := Held, st_dd := True\<rparr>)
      else
        (case classify (flags_of opts) t of
           Positional \<Rightarrow> take_positional t st
         | Unknown \<Rightarrow> st\<lparr>st_mode := Normal, st_extras := st_extras st @ [t]\<rparr>
         | Ambiguous \<Rightarrow> st\<lparr>st_mode := Stopped (Exited 2 (Usage (Ambiguous_option t)))\<rparr>
         | Known flag explicit_arg \<Rightarrow>
             (case expand opts flag explicit_arg of
                Inl out \<Rightarrow> st\<lparr>st_mode := Stopped out\<rparr>
              | Inr (acts, act, e) \<Rightarrow>
                  run_last fs view act e (run_actions view acts (st\<lparr>st_mode := Normal\<rparr>)))))"

text \<open>
  One step of the walk. The argument of an option must be a string that reads as a
  positional: the pattern of an option's argument is \<open>A\<close>, with the \<open>-\<close> of a \<open>--\<close>
  removed (\<open>_get_nargs_pattern\<close>), so after \<open>-l\<close> both an option string and \<open>--\<close> give
  the error that one argument was expected, and a \<open>--\<close> after the argument of \<open>-l\<close> is
  read like any other \<open>--\<close>. The pattern of the positional of the \<open>help\<close> sub-parser is
  \<open>-*A-*\<close>: a \<open>--\<close> next to it is matched with it and then removed (\<open>_get_values\<close>).
\<close>

definition step :: "filesystem \<Rightarrow> printed \<Rightarrow> optspec list \<Rightarrow> string \<Rightarrow> pstate \<Rightarrow> pstate" where
  "step fs view opts t st =
     (case st_mode st of
        Stopped out \<Rightarrow> st
      | Sub name rest \<Rightarrow> st\<lparr>st_mode := Sub name (rest @ [t])\<rparr>
      | Held \<Rightarrow>
          (case st_pos st of
             Sub_command \<Rightarrow> st\<lparr>st_mode := Sub ''--'' [t], st_pos := No_positional\<rparr>
           | _ \<Rightarrow> take_positional t st)
      | Want \<Rightarrow>
          if t \<noteq> ''--'' \<and> classify (flags_of opts) t = Positional
          then store_log fs t (st\<lparr>st_mode := Normal\<rparr>)
          else st\<lparr>st_mode := Stopped (Exited 2 (Usage Expected_one_argument))\<rparr>
      | Swallow \<Rightarrow>
          if \<not> st_dd st \<and> t = ''--'' then st\<lparr>st_mode := Normal, st_dd := True\<rparr>
          else read_token fs view opts t (st\<lparr>st_mode := Normal\<rparr>)
      | Normal \<Rightarrow> read_token fs view opts t st)"

text \<open>
  The end of the argument list. A sub-command that was read is handed to \<open>sub\<close>, which
  checks the name and runs the sub-parser; what the sub-parser leaves over is added to the
  extras. A positional with \<open>nargs=1\<close> that never came is an error; the sub-command
  itself is optional in Python 3.
\<close>

definition finish :: "(string \<Rightarrow> string list \<Rightarrow> namespace \<Rightarrow> (namespace \<times> string list) result)
    \<Rightarrow> pstate \<Rightarrow> (namespace \<times> string list) result" where
  "finish sub st =
     (case st_mode st of
        Stopped out \<Rightarrow> Stop out
      | Want \<Rightarrow> Stop (Exited 2 (Usage Expected_one_argument))
      | Sub name rest \<Rightarrow>
          (case sub name rest (st_ns st) of
             Stop out \<Rightarrow> Stop out
           | Ok (ns, extras) \<Rightarrow> Ok (ns, st_extras st @ extras))
      | Held \<Rightarrow>
          if st_pos st = One_action then Stop (Exited 2 (Usage Required_arguments))
          else Ok (st_ns st, st_extras st @ [''--''])
      | _ \<Rightarrow>
          if st_pos st = One_action then Stop (Exited 2 (Usage Required_arguments))
          else Ok (st_ns st, st_extras st))"

definition walk :: "filesystem \<Rightarrow> printed \<Rightarrow> optspec list \<Rightarrow> positional \<Rightarrow> string list
    \<Rightarrow> namespace \<Rightarrow> pstate" where
  "walk fs view opts pos args ns =
     fold (step fs view opts) args
       \<lparr> st_mode = Normal, st_dd = False, st_pos = pos, st_ns = ns, st_extras = [] \<rparr>"

text \<open>
  The \<open>help\<close> sub-parser: the option \<open>-h/--help\<close>, which every parser made by
  \<open>add_parser\<close> has, and the positional \<open>action\<close>.
\<close>

definition help_options :: "optspec list" where
  "help_options = [([''-h'', ''--help''], Print_help)]"

text \<open>
  A plugin's sub-parser. Its grammar is whatever the plugin's \<open>build_parser\<close> declared,
  so what \<open>argparse\<close> does with it is a parameter (\<open>plugin_parse\<close>), but for one thing:
  the parser has \<open>-h/--help\<close>, and when that is the first argument string it is consumed
  before anything else, prints the help of the sub-parser and exits.
\<close>

type_synonym plugin_parse = "subparser \<Rightarrow> string list \<Rightarrow> namespace \<Rightarrow> (namespace \<times> string list) result"

definition run_subparser :: "filesystem \<Rightarrow> plugin_parse \<Rightarrow> subparser \<Rightarrow> string list \<Rightarrow> namespace
    \<Rightarrow> (namespace \<times> string list) result" where
  "run_subparser fs pp sp args ns =
     (if sp_arguments sp = [Action_positional]
      then finish (\<lambda>name rest ns. Ok (ns, []))
             (walk fs (Help_of_subparser sp) help_options One_action args ns)
      else if args \<noteq> [] \<and> hd args \<in> {''-h'', ''--help''}
        then Stop (Exited 0 (Help_of_subparser sp))
      else pp sp args ns)"

text \<open>
  The action of the sub-parsers argument: the name is checked against the registered
  names, stored under \<open>subparser_name\<close>, and the rest goes to the parser of that name.
\<close>

definition run_subcommand :: "filesystem \<Rightarrow> plugin_parse \<Rightarrow> parser \<Rightarrow> string \<Rightarrow> string list
    \<Rightarrow> namespace \<Rightarrow> (namespace \<times> string list) result" where
  "run_subcommand fs pp p name rest ns =
     (case find_subparser p name of
        None \<Rightarrow> Stop (Exited 2 (Usage (Invalid_choice name)))
      | Some sp \<Rightarrow> run_subparser fs pp sp rest (ns\<lparr>subparser_name := Some name\<rparr>))"

text \<open>
  \<open>parser.parse_known_args(argv, namespace)\<close> returns the namespace and the strings it
  did not recognise; \<open>parser.parse_args\<close> makes left-over strings an error.
\<close>

definition parse_known_args :: "filesystem \<Rightarrow> plugin_parse \<Rightarrow> parser \<Rightarrow> string list \<Rightarrow> namespace
    \<Rightarrow> (namespace \<times> string list) result" where
  "parse_known_args fs pp p args ns =
     finish (run_subcommand fs pp p)
       (walk fs (Help_of_parser p) (options p)
          (if subparsers p = None then No_positional else Sub_command) args ns)"

definition parser_parse_args :: "filesystem \<Rightarrow> plugin_parse \<Rightarrow> parser \<Rightarrow> string list \<Rightarrow> namespace
    \<Rightarrow> namespace result" where
  "parser_parse_args fs pp p args ns =
     (case parse_known_args fs pp p args ns of
        Stop out \<Rightarrow> Stop out
      | Ok (ns, extras) \<Rightarrow>
          if extras = [] then Ok ns
          else Stop (Exited 2 (Usage (Unrecognized_arguments extras))))"

section \<open>__init__.py: sub-command discovery\<close>

text \<open>
  A sub-command module, as far as \<open>parse_subcommands\<close> and \<open>main\<close> touch it: its
  docstring (\<open>None\<close> when the module has none), its \<open>build_parser\<close> (which may raise,
  also because the attribute is missing) and its \<open>action\<close> (\<open>None\<close> when the module
  has no such attribute). The handler takes the namespace and returns a value or raises.
\<close>

type_synonym handler = "namespace \<Rightarrow> exn + string"

record pymodule =
  mod_doc :: "string option"
  mod_build_parser :: "subparser \<Rightarrow> exn + subparser"
  mod_action :: "handler option"

text \<open>
  The package \<open>classifier.subcommands\<close> is not part of the sources at hand; what the code
  uses of it are parameters: its \<open>__name__\<close>, the module names that
  \<open>pkgutil.iter_modules(subcommands.__path__)\<close> lists, what \<open>importlib.import_module\<close>
  does with a dotted name, the functions \<open>subcommands.build_parser\<close> and
  \<open>subcommands.action\<close>, and what \<open>argparse\<close> does on the grammar of a plugin.
\<close>

record plugin_env =
  subcommands_name :: string
  modules :: "string list"
  import_module :: "string \<Rightarrow> exn + pymodule"
  subcommands_build_parser :: "subparser \<Rightarrow> exn + subparser"
  subcommands_action :: "namespace \<Rightarrow> exn + namespace"
  plugin_parser :: plugin_parse

text \<open>\<open>mod.__doc__.lstrip().split('\n', 1)[0]\<close>: the first line of the docstring.\<close>

definition is_space :: "char \<Rightarrow> bool" where
  "is_space c = (c \<in> {CHR '' '', CHR 0x09, CHR 0x0A, CHR 0x0B, CHR 0x0C, CHR 0x0D,
                       CHR 0x1C, CHR 0x1D, CHR 0x1E, CHR 0x1F})"

definition lstrip :: "string \<Rightarrow> string" where
  "lstrip s = dropWhile is_space s"

definition first_line :: "string \<Rightarrow> string" where
  "first_line s = takeWhile (\<lambda>c. c \<noteq> CHR 0x0A) s"

text \<open>
  \<^verbatim>\<open>
  parser_help = subparsers.add_parser(
      'help', help='Detailed help for actions using `help <action>`')
  parser_help.add_argument('action', nargs=1)
  \<close>
\<close>

definition help_parser :: subparser where
  "help_parser =
     \<lparr> sp_name = ''help'',
       sp_help = ''Detailed help for actions using `help <action>`'',
       sp_description = None,
       sp_arguments = [Action_positional] \<rparr>"

text \<open>
  The body of the loop after a successful import. A module without docstring makes
  \<open>mod.__doc__.lstrip()\<close> raise \<open>AttributeError\<close>, as does a module without \<open>action\<close>;
  nothing here is inside the \<open>try\<close>.
  \<^verbatim>\<open>
  subparser = subparsers.add_parser(
      name,
      help=mod.__doc__.lstrip().split('\n', 1)[0],
      description=mod.__doc__,
      formatter_class=argparse.RawDescriptionHelpFormatter)
  mod.build_parser(subparser)
  subcommands.build_parser(subparser)
  actions[name] = mod.action
  \<close>
\<close>

definition register :: "plugin_env \<Rightarrow> string \<Rightarrow> pymodule \<Rightarrow> parser \<times> (string \<rightharpoonup> handler)
    \<Rightarrow> exn + parser \<times> (string \<rightharpoonup> handler)" where
  "register penv name modl st =
     (case st of (parser, actions) \<Rightarrow>
        (case mod_doc modl of
           None \<Rightarrow> Inl AttributeError
         | Some doc \<Rightarrow>
             (case mod_build_parser modl
                     \<lparr> sp_name = name, sp_help = first_line (lstrip doc),
                       sp_description = Some doc, sp_arguments = [] \<rparr> of
                Inl e \<Rightarrow> Inl e
              | Inr subparser \<Rightarrow>
                  (case subcommands_build_parser penv subparser of
                     Inl e \<Rightarrow> Inl e
                   | Inr subparser \<Rightarrow>
                       (case mod_action modl of
                          None \<Rightarrow> Inl AttributeError
                        | Some h \<Rightarrow> Inr (add_parser parser name subparser, actions(name \<mapsto> h)))))))"

text \<open>
  The loop. An import that raises an exception deriving from \<open>Exception\<close> is logged as
  an error and the loop goes on; any other exception, and any exception of the rest of
  the body, ends \<open>parse_subcommands\<close>.
  \<^verbatim>\<open>
  for name in commands or modules:
      try:
          imp = '{}.{}'.format(subcommands.__name__, name)
          mod = importlib.import_module(imp)
      except Exception as e:
          log.error(e)
          continue
      ...
  \<close>
\<close>

fun discover :: "plugin_env \<Rightarrow> string list \<Rightarrow> parser \<times> (string \<rightharpoonup> handler)
    \<Rightarrow> (exn + parser \<times> (string \<rightharpoonup> handler)) \<times> log_record list" where
  "discover penv [] st = (Inr st, [])"
| "discover penv (name # names) st =
     (case import_module penv (subcommands_name penv @ ''.'' @ name) of
        Inl e \<Rightarrow>
          if is_Exception e
          then (case discover penv names st of (r, logged) \<Rightarrow> (r, (ERROR, Error e) # logged))
          else (Inl e, [])
      | Inr modl \<Rightarrow>
          (case register penv name modl st of
             Inl e \<Rightarrow> (Inl e, [])
           | Inr st' \<Rightarrow> discover penv names st'))"

text \<open>
  \<^verbatim>\<open>
  modules = [name for _, name, _ in pkgutil.iter_modules(subcommands.__path__)]
  commands = [m for m in modules if m in argv]
  ...
  for name in commands or modules:
  \<close>
\<close>

definition considered :: "plugin_env \<Rightarrow> string list \<Rightarrow> string list" where
  "considered penv argv =
     (let commands = filter (\<lambda>m. m \<in> set argv) (modules penv)
      in if commands = [] then modules penv else commands)"

definition parse_subcommands :: "plugin_env \<Rightarrow> parser \<Rightarrow> string list
    \<Rightarrow> (exn + parser \<times> (string \<rightharpoonup> handler)) \<times> log_record list" where
  "parse_subcommands penv parser argv =
     (let parser = add_subparsers parser;
          parser = add_parser parser ''help'' help_parser
      in discover penv (considered penv argv) (parser, Map.empty))"

section \<open>__init__.py: main\<close>

text \<open>
  \<^verbatim>\<open>
  def parse_version(parser):
      parser.add_argument('-V', '--version', action='version', version=version(),
                          help='Print the version number and exit')
  \<close>
\<close>

definition parse_version :: "sys_env \<Rightarrow> parser \<Rightarrow> (exn + parser) \<times> log_record list" where
  "parse_version env parser =
     (case version env of
        (Inl e, logged) \<Rightarrow> (Inl e, logged)
      | (Inr v, logged) \<Rightarrow>
          (Inr (add_argument parser ([''-V'', ''--version''], Print_version v)), logged))"

record world =
  system :: sys_env
  files :: filesystem
  plugins :: plugin_env

text \<open>
  What a call of \<open>main\<close> does to the logging system, in order: the call of
  \<open>logging.basicConfig\<close> made by \<open>setup_logging\<close>, and the records submitted.
\<close>

datatype event = Basic_config log_config | Logged log_record

text \<open>\<open>argparse.ArgumentParser(description=__doc__, add_help=False)\<close>\<close>

definition empty_parser :: parser where
  "empty_parser = \<lparr> options = [], subparsers = None \<rparr>"

text \<open>
  \<open>main\<close> up to the namespace of the second parse.
  \<^verbatim>\<open>
  parser = argparse.ArgumentParser(description=__doc__, add_help=False)
  parser = parse_args(parser)
  namespace, argv = parser.parse_known_args(argv)
  setup_logging(namespace)
  parse_version(parser)
  parser.add_argument('-h', '--help', action='help')
  from classifier import subcommands
  parser, actions = parse_subcommands(parser, subcommands, argv)
  namespace = parser.parse_args(args=argv, namespace=namespace)
  \<close>
\<close>

definition run_parsers :: "world \<Rightarrow> string list
    \<Rightarrow> (namespace \<times> (string \<rightharpoonup> handler)) result \<times> event list" where
  "run_parsers w argv =
     (let parser = parse_args empty_parser
      in case parse_known_args (files w) (plugin_parser (plugins w)) parser argv default_namespace of
           Stop out \<Rightarrow> (Stop out, [])
         | Ok (namespace, argv) \<Rightarrow>
             (let ev1 = [Basic_config (setup_logging namespace)]
              in case parse_version (system w) parser of
                   (Inl e, lg1) \<Rightarrow> (Stop (Raised e), ev1 @ map Logged lg1)
                 | (Inr parser, lg1) \<Rightarrow>
                     (let parser = add_argument parser ([''-h'', ''--help''], Print_help)
                      in case parse_subcommands (plugins w) parser argv of
                           (Inl e, lg2) \<Rightarrow>
                             (Stop (Raised e), ev1 @ map Logged lg1 @ map Logged lg2)
                         | (Inr (parser, actions), lg2) \<Rightarrow>
                             (case parser_parse_args (files w) (plugin_parser (plugins w))
                                     parser argv namespace of
                                Stop out \<Rightarrow> (Stop out, ev1 @ map Logged lg1 @ map Logged lg2)
                              | Ok namespace \<Rightarrow>
                                  (Ok (namespace, actions),
                                   ev1 @ map Logged lg1 @ map Logged lg2)))))"

text \<open>
  The last two lines of \<open>main\<close>. \<open>actions[action]\<close> raises \<open>KeyError\<close> when no handler
  is registered under the name, and when no sub-command was given (\<open>action\<close> is \<open>None\<close>).
  \<^verbatim>\<open>
  namespace = subcommands.action(namespace)
  return actions[action](namespace)
  \<close>
\<close>

definition run_handler :: "plugin_env \<Rightarrow> namespace \<Rightarrow> (string \<rightharpoonup> handler) \<Rightarrow> outcome" where
  "run_handler penv namespace actions =
     (case subcommands_action penv namespace of
        Inl e \<Rightarrow> Raised e
      | Inr namespace' \<Rightarrow>
          (case subparser_name namespace of
             None \<Rightarrow> Raised KeyError
           | Some name \<Rightarrow>
               (case actions name of
                  None \<Rightarrow> Raised KeyError
                | Some h \<Rightarrow> (case h namespace' of Inl e \<Rightarrow> Raised e | Inr r \<Rightarrow> Returned r))))"

text \<open>
  The sub-command that a \<open>help\<close> invocation asks about: \<open>namespace.action[0]\<close> when the
  parsed sub-command name is \<open>help\<close>.
\<close>

definition help_target :: "world \<Rightarrow> string list \<Rightarrow> string option" where
  "help_target w argv =
     (case fst (run_parsers w argv) of
        Stop out \<Rightarrow> None
      | Ok (namespace, actions) \<Rightarrow>
          if subparser_name namespace = Some ''help''
          then (case action namespace of Some (a # rest) \<Rightarrow> Some a | _ \<Rightarrow> None)
          else None)"

section \<open>main, and why its recursion ends\<close>

text \<open>
  \<open>main\<close> calls itself on \<open>[action, '-h']\<close> when the sub-command is \<open>help\<close>. The
  call returns because the parse of a two-element list that ends in \<open>-h\<close> never yields
  a namespace: the first parse leaves \<open>-h\<close> over, and in the second parse either the
  top-level parser or a sub-parser meets \<open>-h\<close> and exits, unless something has stopped
  the run before. The lemmas of this section establish that; the states that one argument
  string can lead to are described by \<open>after_one_full\<close> (second parse) and
  \<open>after_one_pre\<close> (first parse).
\<close>

lemma run_action_frame:
  "st_dd (run_action view a st) = st_dd st"
  "st_pos (run_action view a st) = st_pos st"
  "st_extras (run_action view a st) = st_extras st"
  by (cases a; simp)+

definition calm :: "pstate \<Rightarrow> bool" where
  "calm st = (case st_mode st of Normal \<Rightarrow> True | Stopped out \<Rightarrow> True | _ \<Rightarrow> False)"

definition settled :: "pstate \<Rightarrow> bool" where
  "settled st = (case st_mode st of Normal \<Rightarrow> True | Want \<Rightarrow> True | Stopped out \<Rightarrow> True | _ \<Rightarrow> False)"

lemma run_action_calm: "calm st \<Longrightarrow> calm (run_action view a st)"
  by (cases a) (auto simp: calm_def split: mode.splits)

lemma run_actions_frame:
  "calm st \<Longrightarrow> calm (run_actions view as st)
     \<and> st_dd (run_actions view as st) = st_dd st
     \<and> st_pos (run_actions view as st) = st_pos st
     \<and> st_extras (run_actions view as st) = st_extras st"
proof (induction as arbitrary: st)
  case Nil
  then show ?case by simp
next
  case (Cons a as)
  show ?case
  proof (cases "st_mode st")
    case (Stopped out)
    with Cons.prems show ?thesis by simp
  next
    case Normal
    from Cons.IH [OF run_action_calm [OF Cons.prems, of view a]] Normal
    show ?thesis by (simp add: run_action_frame)
  qed (use Cons.prems in \<open>simp_all add: calm_def\<close>)
qed

lemma store_log_frame:
  "st_dd (store_log fs v st) = st_dd st"
  "st_pos (store_log fs v st) = st_pos st"
  "st_extras (store_log fs v st) = st_extras st"
  "st_mode (store_log fs v st) = st_mode st \<or> (\<exists>out. st_mode (store_log fs v st) = Stopped out)"
  by (auto simp: store_log_def split: sum.splits)

lemma run_last_frame:
  assumes "calm st"
  shows "settled (run_last fs view act e st)
     \<and> st_dd (run_last fs view act e st) = st_dd st
     \<and> st_pos (run_last fs view act e st) = st_pos st
     \<and> st_extras (run_last fs view act e st) = st_extras st"
proof (cases "st_mode st")
  case (Stopped out)
  then show ?thesis by (simp add: run_last_def settled_def)
next
  case Normal
  show ?thesis
  proof (cases "takes_argument act")
    case False
    with Normal run_action_calm [OF assms, of view act] show ?thesis
      by (auto simp: run_last_def settled_def calm_def run_action_frame split: mode.splits)
  next
    case True
    show ?thesis
    proof (cases e)
      case None
      with True Normal show ?thesis by (simp add: run_last_def settled_def)
    next
      case (Some v)
      with True Normal store_log_frame(4) [of fs v st] show ?thesis
        by (auto simp: run_last_def settled_def store_log_frame)
    qed
  qed
qed (use assms in \<open>simp_all add: calm_def\<close>)

lemma known_frame:
  assumes "st_mode st = Normal"
  shows "settled (run_last fs view act e (run_actions view acts st))
     \<and> st_dd (run_last fs view act e (run_actions view acts st)) = st_dd st
     \<and> st_pos (run_last fs view act e (run_actions view acts st)) = st_pos st
     \<and> st_extras (run_last fs view act e (run_actions view acts st)) = st_extras st"
proof -
  from assms have "calm st" by (simp add: calm_def)
  from run_actions_frame [OF this, of view acts] run_last_frame [of "run_actions view acts st" fs view act e]
  show ?thesis by simp
qed

definition after_one_full :: "pstate \<Rightarrow> bool" where
  "after_one_full st =
     (st_pos st \<noteq> One_action \<and>
      (case st_mode st of
         Stopped out \<Rightarrow> True
       | Sub name rest \<Rightarrow> rest = []
       | Held \<Rightarrow> st_pos st = Sub_command
       | _ \<Rightarrow> \<not> st_dd st))"

definition after_one_pre :: "string \<Rightarrow> pstate \<Rightarrow> bool" where
  "after_one_pre a st =
     (st_pos st = No_positional \<and>
      (case st_mode st of
         Stopped out \<Rightarrow> True
       | Want \<Rightarrow> \<not> st_dd st
       | Normal \<Rightarrow> st_extras st = [] \<and> \<not> st_dd st \<or> st_extras st = [a]
       | _ \<Rightarrow> False))"

lemma read_token_full:
  assumes "st_mode st = Normal" "\<not> st_dd st" "st_pos st = Sub_command"
  shows "after_one_full (read_token fs view opts t st)"
proof (cases "t = ''--''")
  case True
  with assms show ?thesis by (simp add: read_token_def after_one_full_def)
next
  case False
  show ?thesis
  proof (cases "classify (flags_of opts) t")
    case Positional
    with False assms show ?thesis
      by (simp add: read_token_def after_one_full_def take_positional_def)
  next
    case (Known flag e)
    show ?thesis
    proof (cases "expand opts flag e")
      case (Inl out)
      with Known False assms show ?thesis by (simp add: read_token_def after_one_full_def)
    next
      case (Inr r)
      obtain acts act e' where r: "r = (acts, act, e')" by (cases r)
      let ?st = "run_last fs view act e' (run_actions view acts (st\<lparr>st_mode := Normal\<rparr>))"
      from known_frame [of "st\<lparr>st_mode := Normal\<rparr>" fs view act e' acts] assms
      have "settled ?st" "\<not> st_dd ?st" "st_pos ?st = Sub_command" by simp_all
      then have "after_one_full ?st"
        by (auto simp: after_one_full_def settled_def split: mode.splits)
      with Known False assms Inr r show ?thesis by (simp add: read_token_def)
    qed
  next
    case Unknown
    with False assms show ?thesis by (simp add: read_token_def after_one_full_def)
  next
    case Ambiguous
    with False assms show ?thesis by (simp add: read_token_def after_one_full_def)
  qed
qed

lemma read_token_pre:
  assumes "st_mode st = Normal" "\<not> st_dd st" "st_pos st = No_positional" "st_extras st = []"
  shows "after_one_pre t (read_token fs view opts t st)"
proof (cases "t = ''--''")
  case True
  with assms show ?thesis by (simp add: read_token_def after_one_pre_def)
next
  case False
  show ?thesis
  proof (cases "classify (flags_of opts) t")
    case Positional
    with False assms show ?thesis
      by (simp add: read_token_def after_one_pre_def take_positional_def)
  next
    case (Known flag e)
    show ?thesis
    proof (cases "expand opts flag e")
      case (Inl out)
      with Known False assms show ?thesis by (simp add: read_token_def after_one_pre_def)
    next
      case (Inr r)
      obtain acts act e' where r: "r = (acts, act, e')" by (cases r)
      let ?st = "run_last fs view act e' (run_actions view acts (st\<lparr>st_mode := Normal\<rparr>))"
      from known_frame [of "st\<lparr>st_mode := Normal\<rparr>" fs view act e' acts] assms
      have "settled ?st" "\<not> st_dd ?st" "st_pos ?st = No_positional" "st_extras ?st = []"
        by simp_all
      then have "after_one_pre t ?st"
        by (auto simp: after_one_pre_def settled_def split: mode.splits)
      with Known False assms Inr r show ?thesis by (simp add: read_token_def)
    qed
  next
    case Unknown
    with False assms show ?thesis by (simp add: read_token_def after_one_pre_def)
  next
    case Ambiguous
    with False assms show ?thesis by (simp add: read_token_def after_one_pre_def)
  qed
qed

lemma classify_flag: "flag \<in> set flags \<Longrightarrow> prefix ''-'' flag \<Longrightarrow> classify flags flag = Known flag None"
  by (cases flag) (auto simp: classify_def)

lemma read_help:
  assumes "st_mode st = Normal" "\<not> st_dd st"
    and "''-h'' \<in> set (flags_of opts)" "find_action opts ''-h'' = Some Print_help"
  shows "st_mode (read_token fs view opts ''-h'' st) = Stopped (Exited 0 view)"
  using assms
  by (simp add: read_token_def classify_flag expand_def run_last_def)

lemma full_h:
  assumes q: "after_one_full st"
    and h: "''-h'' \<in> set (flags_of opts)" "find_action opts ''-h'' = Some Print_help"
    and sub: "\<And>name ns. \<exists>out. sub name [''-h''] ns = Stop out"
  shows "\<exists>out. finish sub (step fs view opts ''-h'' st) = Stop out"
proof (cases "st_mode st")
  case Normal
  with q have "\<not> st_dd st" by (simp add: after_one_full_def)
  from read_help [OF Normal this h, of fs view] Normal show ?thesis
    by (simp add: step_def finish_def)
next
  case Want
  with q have "\<not> st_dd st" by (simp add: after_one_full_def)
  with Want h(1) show ?thesis
    by (simp add: step_def finish_def classify_flag)
next
  case Swallow
  with q have d: "\<not> st_dd st" by (simp add: after_one_full_def)
  from read_help [of "st\<lparr>st_mode := Normal\<rparr>" opts fs view] d h Swallow show ?thesis
    by (simp add: step_def finish_def)
next
  case Held
  with q have "st_pos st = Sub_command" by (simp add: after_one_full_def)
  with Held sub [of "''--''" "st_ns st"] show ?thesis
    by (auto simp: step_def finish_def)
next
  case (Sub name rest)
  with q have "rest = []" by (simp add: after_one_full_def)
  with Sub sub [of name "st_ns st"] show ?thesis
    by (auto simp: step_def finish_def)
next
  case (Stopped out)
  then show ?thesis by (simp add: step_def finish_def)
qed

lemma walk_single:
  "walk fs view opts pos [t] ns =
     read_token fs view opts t
       \<lparr> st_mode = Normal, st_dd = False, st_pos = pos, st_ns = ns, st_extras = [] \<rparr>"
  by (simp add: walk_def step_def)

lemma walk_pair:
  "walk fs view opts pos [a, t] ns =
     step fs view opts t
       (read_token fs view opts a
          \<lparr> st_mode = Normal, st_dd = False, st_pos = pos, st_ns = ns, st_extras = [] \<rparr>)"
  by (simp add: walk_def step_def)

lemma help_options_h:
  "''-h'' \<in> set (flags_of help_options)" "find_action help_options ''-h'' = Some Print_help"
  by (simp_all add: help_options_def flags_of_def find_action_def)

lemma run_subparser_h: "\<exists>out. run_subparser fs pp sp [''-h''] ns = Stop out"
proof (cases "sp_arguments sp = [Action_positional]")
  case True
  let ?st = "\<lparr> st_mode = Normal, st_dd = False, st_pos = One_action, st_ns = ns, st_extras = [] \<rparr>"
  have "st_mode (read_token fs (Help_of_subparser sp) help_options ''-h'' ?st)
      = Stopped (Exited 0 (Help_of_subparser sp))"
    by (rule read_help) (simp_all add: help_options_h)
  with True show ?thesis by (simp add: run_subparser_def walk_single finish_def)
next
  case False
  then show ?thesis by (simp add: run_subparser_def)
qed

lemma run_subcommand_h: "\<exists>out. run_subcommand fs pp p name [''-h''] ns = Stop out"
proof (cases "find_subparser p name")
  case None
  then show ?thesis by (simp add: run_subcommand_def)
next
  case (Some sp)
  with run_subparser_h [of fs pp sp "ns\<lparr>subparser_name := Some name\<rparr>"] show ?thesis
    by (simp add: run_subcommand_def)
qed

lemma pre_h:
  assumes q: "after_one_pre a st" and u: "classify (flags_of opts) ''-h'' = Unknown"
  shows "(\<exists>out. finish sub (step fs view opts ''-h'' st) = Stop out)
     \<or> (\<exists>ns. finish sub (step fs view opts ''-h'' st) = Ok (ns, [''-h'']))
     \<or> (\<exists>ns. finish sub (step fs view opts ''-h'' st) = Ok (ns, [a, ''-h'']))"
proof (cases "st_mode st")
  case Normal
  with q have p: "st_pos st = No_positional"
    and e: "st_extras st = [] \<and> \<not> st_dd st \<or> st_extras st = [a]"
    by (simp_all add: after_one_pre_def)
  show ?thesis
  proof (cases "st_dd st")
    case True
    with e have "st_extras st = [a]" by simp
    with True Normal p show ?thesis
      by (simp add: step_def read_token_def take_positional_def finish_def)
  next
    case False
    with Normal p u e show ?thesis
      by (auto simp: step_def read_token_def finish_def)
  qed
next
  case Want
  with q have "\<not> st_dd st" by (simp add: after_one_pre_def)
  with Want u show ?thesis by (simp add: step_def finish_def)
next
  case (Stopped out)
  then show ?thesis by (simp add: step_def finish_def)
qed (use q in \<open>simp_all add: after_one_pre_def\<close>)

lemma prescan_options:
  "options (parse_args empty_parser) =
     [([''-l'', ''--log''], Store_log), ([''-v'', ''--verbose''], Count_verbosity),
      ([''-q'', ''--quiet''], Store_const_verbosity 0)]"
  "subparsers (parse_args empty_parser) = None"
  by (simp_all add: parse_args_def empty_parser_def add_argument_def)

lemma prescan_flags:
  "flags_of (options (parse_args empty_parser)) =
     [''-l'', ''--log'', ''-v'', ''--verbose'', ''-q'', ''--quiet'']"
  by (simp add: prescan_options flags_of_def)

lemma prescan_classify_h:
  "classify (flags_of (options (parse_args empty_parser))) ''-h'' = Unknown"
  by (simp add: prescan_flags classify_def option_tuples_def is_negative_number_def
      is_digit_def split_eq_def)

lemma prescan_pair:
  "(\<exists>out. parse_known_args fs pp (parse_args empty_parser) [a, ''-h''] ns = Stop out)
   \<or> (\<exists>ns'. parse_known_args fs pp (parse_args empty_parser) [a, ''-h''] ns = Ok (ns', [''-h'']))
   \<or> (\<exists>ns'. parse_known_args fs pp (parse_args empty_parser) [a, ''-h''] ns = Ok (ns', [a, ''-h'']))"
proof -
  let ?p = "parse_args empty_parser"
  let ?st = "\<lparr> st_mode = Normal, st_dd = False, st_pos = No_positional, st_ns = ns, st_extras = [] \<rparr>"
  have "after_one_pre a (read_token fs (Help_of_parser ?p) (options ?p) a ?st)"
    by (rule read_token_pre) simp_all
  from pre_h [OF this prescan_classify_h, of "run_subcommand fs pp ?p" fs "Help_of_parser ?p"]
  show ?thesis by (simp add: parse_known_args_def prescan_options(2) walk_pair)
qed

lemma add_parser_frame:
  "options (add_parser p name sp) = options p" "subparsers (add_parser p name sp) \<noteq> None"
  by (simp_all add: add_parser_def)

lemma register_frame:
  "register penv name modl (p, acts) = Inr (p', acts') \<Longrightarrow>
     options p' = options p \<and> subparsers p' \<noteq> None"
  by (auto simp: register_def add_parser_def split: option.splits sum.splits)

lemma discover_frame:
  "fst (discover penv names (p, acts)) = Inr (p', acts') \<Longrightarrow> subparsers p \<noteq> None \<Longrightarrow>
     options p' = options p \<and> subparsers p' \<noteq> None"
proof (induction names arbitrary: p acts)
  case Nil
  then show ?case by simp
next
  case (Cons name names)
  show ?case
  proof (cases "import_module penv (subcommands_name penv @ ''.'' @ name)")
    case (Inl e)
    with Cons.prems(1) have "fst (discover penv names (p, acts)) = Inr (p', acts')"
      by (simp add: split_beta split: if_splits)
    from Cons.IH [OF this Cons.prems(2)] show ?thesis .
  next
    case (Inr modl)
    show ?thesis
    proof (cases "register penv name modl (p, acts)")
      case (Inl e)
      with Inr Cons.prems(1) show ?thesis by simp
    next
      case reg: (Inr st')
      obtain p1 acts1 where st': "st' = (p1, acts1)" by (cases st')
      from reg st' register_frame have f: "options p1 = options p" "subparsers p1 \<noteq> None"
        by blast+
      from Inr reg st' Cons.prems(1) have "fst (discover penv names (p1, acts1)) = Inr (p', acts')"
        by simp
      from Cons.IH [OF this f(2)] f(1) show ?thesis by simp
    qed
  qed
qed

lemma parse_subcommands_frame:
  assumes "fst (parse_subcommands penv p argv) = Inr (p', acts)"
  shows "options p' = options p \<and> subparsers p' \<noteq> None"
proof -
  let ?p0 = "add_parser (add_subparsers p) ''help'' help_parser"
  from assms have "fst (discover penv (considered penv argv) (?p0, Map.empty)) = Inr (p', acts)"
    by (simp add: parse_subcommands_def)
  from discover_frame [OF this add_parser_frame(2)] show ?thesis
    by (simp add: add_parser_frame add_subparsers_def)
qed

lemma full_single:
  assumes "''-h'' \<in> set (flags_of (options p))" "find_action (options p) ''-h'' = Some Print_help"
  shows "\<exists>out. parse_known_args fs pp p [''-h''] ns = Stop out"
proof -
  let ?pos = "if subparsers p = None then No_positional else Sub_command"
  let ?st = "\<lparr> st_mode = Normal, st_dd = False, st_pos = ?pos, st_ns = ns, st_extras = [] \<rparr>"
  have "st_mode (read_token fs (Help_of_parser p) (options p) ''-h'' ?st)
      = Stopped (Exited 0 (Help_of_parser p))"
    by (rule read_help) (simp_all add: assms)
  then show ?thesis by (simp add: parse_known_args_def walk_single finish_def)
qed

lemma full_pair:
  assumes h: "''-h'' \<in> set (flags_of (options p))" "find_action (options p) ''-h'' = Some Print_help"
    and s: "subparsers p \<noteq> None"
  shows "\<exists>out. parse_known_args fs pp p [a, ''-h''] ns = Stop out"
proof -
  let ?st = "\<lparr> st_mode = Normal, st_dd = False, st_pos = Sub_command, st_ns = ns, st_extras = [] \<rparr>"
  have "after_one_full (read_token fs (Help_of_parser p) (options p) a ?st)"
    by (rule read_token_full) simp_all
  have "\<And>name ns. \<exists>out. run_subcommand fs pp p name [''-h''] ns = Stop out"
    by (rule run_subcommand_h)
  from full_h [of _ "options p" "run_subcommand fs pp p" fs "Help_of_parser p",
      OF \<open>after_one_full _\<close> h this]
  obtain out where "finish (run_subcommand fs pp p)
      (step fs (Help_of_parser p) (options p) ''-h''
        (read_token fs (Help_of_parser p) (options p) a ?st)) = Stop out" by blast
  moreover from s obtain sps where "subparsers p = Some sps" by blast
  ultimately show ?thesis by (simp add: parse_known_args_def walk_pair)
qed

lemma final_options_h:
  assumes "options p = options (parse_args empty_parser) @ [([''-V'', ''--version''], Print_version v)]
      @ [([''-h'', ''--help''], Print_help)]"
  shows "''-h'' \<in> set (flags_of (options p))" "find_action (options p) ''-h'' = Some Print_help"
  by (simp_all add: assms prescan_options flags_of_def find_action_def)

lemma run_parsers_h: "\<exists>out. fst (run_parsers w [a, ''-h'']) = Stop out"
proof -
  let ?fs = "files w" and ?pp = "plugin_parser (plugins w)"
  let ?p0 = "parse_args empty_parser"
  from prescan_pair [of ?fs ?pp a default_namespace] consider
      (stop) out where "parse_known_args ?fs ?pp ?p0 [a, ''-h''] default_namespace = Stop out"
    | (ok) ns argv where "parse_known_args ?fs ?pp ?p0 [a, ''-h''] default_namespace = Ok (ns, argv)"
        "argv = [''-h''] \<or> argv = [a, ''-h'']"
    by blast
  then show ?thesis
  proof cases
    case stop
    then show ?thesis by (simp add: run_parsers_def)
  next
    case ok
    show ?thesis
    proof (cases "version (system w)")
      case (Pair r lg1)
      show ?thesis
      proof (cases r)
        case (Inl e)
        with Pair ok(1) show ?thesis by (simp add: run_parsers_def parse_version_def)
      next
        case (Inr v)
        let ?p2 = "add_argument (add_argument ?p0 ([''-V'', ''--version''], Print_version v))
            ([''-h'', ''--help''], Print_help)"
        obtain r2 lg2 where d: "parse_subcommands (plugins w) ?p2 argv = (r2, lg2)"
          by (cases "parse_subcommands (plugins w) ?p2 argv")
        show ?thesis
        proof (cases r2)
          case (Inl e)
          with Pair Inr ok(1) d show ?thesis by (simp add: run_parsers_def parse_version_def)
        next
          case r2: (Inr pa)
          obtain p acts where pa: "pa = (p, acts)" by (cases pa)
          from d r2 pa have "fst (parse_subcommands (plugins w) ?p2 argv) = Inr (p, acts)" by simp
          from parse_subcommands_frame [OF this]
          have o: "options p = options ?p0 @ [([''-V'', ''--version''], Print_version v)]
              @ [([''-h'', ''--help''], Print_help)]" and s: "subparsers p \<noteq> None"
            by (simp_all add: add_argument_def)
          from ok(2) full_single [OF final_options_h [OF o], of ?fs ?pp ns]
            full_pair [OF final_options_h [OF o] s, of ?fs ?pp a ns]
          obtain out where "parse_known_args ?fs ?pp p argv ns = Stop out" by auto
          with Pair Inr ok(1) d r2 pa show ?thesis
            by (simp add: run_parsers_def parse_version_def parser_parse_args_def)
        qed
      qed
    qed
  qed
qed

lemma help_target_h: "help_target w [a, ''-h''] = None"
  using run_parsers_h [of w a] by (auto simp: help_target_def)

lemma help_target_Some:
  assumes "(Ok (namespace, actions), events) = run_parsers w argv"
    and "subparser_name namespace = Some ''help''" and "action namespace = Some (a # rest)"
  shows "help_target w argv = Some a"
proof -
  from assms(1) have "fst (run_parsers w argv) = Ok (namespace, actions)"
    by (metis fst_conv)
  with assms(2,3) show ?thesis by (simp add: help_target_def)
qed

text \<open>
  \<^verbatim>\<open>
  action = namespace.subparser_name
  if action == 'help':
      return main([str(namespace.action[0]), '-h'])
  else:
      namespace = subcommands.action(namespace)
      return actions[action](namespace)
  \<close>
  The result is how the call ends, with the logging events of the call and of the
  nested call in order.
\<close>

function main :: "world \<Rightarrow> string list \<Rightarrow> outcome \<times> event list" where
  "main w argv =
     (case run_parsers w argv of
        (Stop out, events) \<Rightarrow> (out, events)
      | (Ok (namespace, actions), events) \<Rightarrow>
          if subparser_name namespace = Some ''help''
          then (case action namespace of
                  None \<Rightarrow> (Raised AttributeError, events)
                | Some [] \<Rightarrow> (Raised IndexError, events)
                | Some (a # rest) \<Rightarrow>
                    (case main w [a, ''-h''] of (out, events') \<Rightarrow> (out, events @ events')))
          else (run_handler (plugins w) namespace actions, events))"
  by pat_completeness auto
termination
  by (relation "measure (\<lambda>(w, argv). case help_target w argv of None \<Rightarrow> 0 | Some a \<Rightarrow> 1)")
    (auto simp: help_target_h help_target_Some)

declare main.simps [simp del]

section \<open>Notions used in the statements about the version resolver\<close>





section \<open>Notions used in the statements about discovery\<close>

text \<open>The dotted name that the loop imports: \<open>'{}.{}'.format(subcommands.__name__, name)\<close>.\<close>

definition dotted :: "plugin_env \<Rightarrow> string \<Rightarrow> string" where
  "dotted penv name = subcommands_name penv @ ''.'' @ name"

text \<open>The exception that importing a module raises, if it raises one.\<close>

definition import_error :: "plugin_env \<Rightarrow> string \<Rightarrow> exn option" where
  "import_error penv name =
     (case import_module penv (dotted penv name) of Inl e \<Rightarrow> Some e | Inr modl \<Rightarrow> None)"

definition imports_ok :: "plugin_env \<Rightarrow> string \<Rightarrow> bool" where
  "imports_ok penv name = (import_error penv name = None)"


text \<open>Two sample modules: one that keeps to the plugin contract, one without docstring.\<close>

definition good_module :: "string \<Rightarrow> pymodule" where
  "good_module doc =
     \<lparr> mod_doc = Some doc, mod_build_parser = Inr, mod_action = Some (\<lambda>ns. Inr ''done'') \<rparr>"


section \<open>Notions used in the statements about verbosity\<close>

text \<open>
  The first parse of \<open>main\<close>, and the logging configuration that \<open>main\<close> installs from
  its namespace (none when the parse exits).
\<close>

definition prescan :: "world \<Rightarrow> string list \<Rightarrow> (namespace \<times> string list) result" where
  "prescan w argv =
     parse_known_args (files w) (plugin_parser (plugins w)) (parse_args empty_parser) argv
       default_namespace"


text \<open>
  The argument strings of the statements: the two spellings of the verbose flag, the two
  of the quiet flag, and strings that the first parse leaves alone (sub-command names,
  their arguments, options it does not know).
\<close>

definition louder :: "string \<Rightarrow> bool" where
  "louder t = (t = ''-v'' \<or> t = ''--verbose'')"

definition quiet :: "string \<Rightarrow> bool" where
  "quiet t = (t = ''-q'' \<or> t = ''--quiet'')"

definition left_alone :: "string \<Rightarrow> bool" where
  "left_alone t =
     (t \<noteq> ''--'' \<and>
      (classify (flags_of (options (parse_args empty_parser))) t = Positional \<or>
       classify (flags_of (options (parse_args empty_parser))) t = Unknown))"

text \<open>The verbosity after a list of such strings, starting from \<open>v\<close>.\<close>

fun count_verbosity :: "int \<Rightarrow> string list \<Rightarrow> int" where
  "count_verbosity v [] = v"
| "count_verbosity v (t # ts) =
     count_verbosity (if louder t then v + 1 else if quiet t then 0 else v) ts"

text \<open>A sample installation: two plugins that keep to the contract, no git, version 1.0.\<close>

definition sample_plugins :: plugin_env where
  "sample_plugins =
     \<lparr> subcommands_name = ''classifier.subcommands'',
       modules = [''classify'', ''filter''],
       import_module = (\<lambda>n. Inr (good_module ''Does things'')),
       subcommands_build_parser = Inr,
       subcommands_action = Inr,
       plugin_parser = (\<lambda>sp args ns. Ok (ns, args)) \<rparr>"

definition sample_world :: world where
  "sample_world =
     \<lparr> system = \<lparr> install_dir = ''/opt/classifier'', check_output = (\<lambda>cmd. Inl OSError),
                  pkg_require = (\<lambda>name. Inr ''1.0'') \<rparr>,
       files = (\<lambda>c f m. None),
       plugins = sample_plugins \<rparr>"

text \<open>A plugin directory that holds a module named \<open>help\<close>.\<close>

definition shadowed_world :: world where
  "shadowed_world = sample_world\<lparr>plugins := sample_plugins\<lparr>modules := [''help'', ''classify'']\<rparr>\<rparr>"

section \<open>Properties of the file opener\<close>

lemma bz2_not_gz: "suffix ''.bz2'' f \<Longrightarrow> \<not> suffix ''.gz'' f"
  by (auto simp: suffix_def)

lemma bz2_not_dash: "suffix ''.bz2'' f \<Longrightarrow> f \<noteq> ''-''"
  by (auto simp: suffix_def)

lemma gz_not_dash: "suffix ''.gz'' f \<Longrightarrow> f \<noteq> ''-''"
  by (auto simp: suffix_def)

text \<open>
  C3. The function made by \<open>opener mode\<close> returns a standard stream unchanged; for the
  string \<open>-\<close> it returns standard input when the mode contains \<open>r\<close> and standard output
  otherwise; a name ending in \<open>.bz2\<close> goes to the bzip2 codec, a name ending in \<open>.gz\<close>
  to the gzip codec, and every other name is opened without compression.
\<close>

theorem opener_case_analysis:
  "opener fs mode (Stream s) = Inr (Std s)
   \<and> (CHR ''r'' \<in> set mode \<longrightarrow> opener fs mode (Name ''-'') = Inr (Std Stdin))
   \<and> (CHR ''r'' \<notin> set mode \<longrightarrow> opener fs mode (Name ''-'') = Inr (Std Stdout))
   \<and> (suffix ''.bz2'' f \<longrightarrow> opener fs mode (Name f) = open_with fs Bz2 f mode)
   \<and> (suffix ''.gz'' f \<longrightarrow> opener fs mode (Name f) = open_with fs Gzip f mode)
   \<and> (f \<noteq> ''-'' \<and> \<not> suffix ''.bz2'' f \<and> \<not> suffix ''.gz'' f \<longrightarrow>
        opener fs mode (Name f) = open_with fs Plain f mode)"
proof -
  have std: "opener fs mode (Stream s) = Inr (Std s)"
    by (simp add: opener_def)
  have dash: "opener fs mode (Name ''-'') =
      Inr (Std (if CHR ''r'' \<in> set mode then Stdin else Stdout))"
    by (simp add: opener_def)
  have bz: "opener fs mode (Name f) = open_with fs Bz2 f mode" if "suffix ''.bz2'' f"
    using that bz2_not_dash [OF that] by (simp add: opener_def)
  have gz: "opener fs mode (Name f) = open_with fs Gzip f mode" if "suffix ''.gz'' f"
    using that gz_not_dash [OF that] bz2_not_gz [of f] by (auto simp: opener_def)
  have plain: "opener fs mode (Name f) = open_with fs Plain f mode"
    if "f \<noteq> ''-''" "\<not> suffix ''.bz2'' f" "\<not> suffix ''.gz'' f"
    using that by (simp add: opener_def)
  from std dash bz gz plain show ?thesis by simp
qed

theorem opener_case_analysis_witness:
  "opener (\<lambda>c f m. None) ''a'' (Stream Stdout) = Inr (Std Stdout)
   \<and> opener (\<lambda>c f m. None) ''rt'' (Name ''-'') = Inr (Std Stdin)
   \<and> opener (\<lambda>c f m. None) ''a'' (Name ''-'') = Inr (Std Stdout)
   \<and> opener (\<lambda>c f m. None) ''a'' (Name ''x.bz2'') = Inr (File Bz2 ''x.bz2'' ''a'')
   \<and> opener (\<lambda>c f m. if c = Bz2 then Some OSError else None) ''a'' (Name ''x.bz2'') = Inl OSError"
proof -
  have r: "CHR ''r'' \<in> set ''rt''" by simp
  have a: "CHR ''r'' \<notin> set ''a''" by simp
  have s: "suffix ''.bz2'' ''x.bz2''" by (simp add: suffix_def)
  note t1 = opener_case_analysis [of "\<lambda>c f m. None" "''a''" Stdout "''x.bz2''"]
  note t2 = opener_case_analysis [of "\<lambda>c f m. None" "''rt''" Stdout "''x.bz2''"]
  note t3 = opener_case_analysis
    [of "\<lambda>c f m. if c = Bz2 then Some OSError else None" "''a''" Stdout "''x.bz2''"]
  from t1 t2 t3 r a s show ?thesis by (simp add: open_with_def)
qed

section \<open>Properties of the logging set-up\<close>

lemma loglevel_of_ge3: "3 \<le> v \<Longrightarrow> loglevel_of v = DEBUG"
  by (auto simp: loglevel_of_def loglevel_table_def)

text \<open>
  C6. The level that \<open>setup_logging\<close> configures is ERROR for verbosity 0, WARNING for 1,
  INFO for 2 and DEBUG for every verbosity of 3 or more.
\<close>

theorem setup_logging_levels:
  "(verbosity ns = 0 \<longrightarrow> level (setup_logging ns) = ERROR)
   \<and> (verbosity ns = 1 \<longrightarrow> level (setup_logging ns) = WARNING)
   \<and> (verbosity ns = 2 \<longrightarrow> level (setup_logging ns) = INFO)
   \<and> (3 \<le> verbosity ns \<longrightarrow> level (setup_logging ns) = DEBUG)"
  by (simp add: setup_logging_def loglevel_of_ge3) (simp add: loglevel_of_def loglevel_table_def)

theorem setup_logging_levels_witness:
  "level (setup_logging \<lparr> log = Std Stdout, verbosity = 0, subparser_name = None,
      action = None, attrs = [] \<rparr>) = ERROR
   \<and> level (setup_logging \<lparr> log = Std Stdout, verbosity = 1, subparser_name = None,
      action = None, attrs = [] \<rparr>) = WARNING
   \<and> level (setup_logging \<lparr> log = Std Stdout, verbosity = 2, subparser_name = None,
      action = None, attrs = [] \<rparr>) = INFO
   \<and> level (setup_logging \<lparr> log = Std Stdout, verbosity = 7, subparser_name = None,
      action = None, attrs = [] \<rparr>) = DEBUG"
  using setup_logging_levels [of "\<lparr> log = Std Stdout, verbosity = 0, subparser_name = None,
      action = None, attrs = [] \<rparr>"]
    setup_logging_levels [of "\<lparr> log = Std Stdout, verbosity = 1, subparser_name = None,
      action = None, attrs = [] \<rparr>"]
    setup_logging_levels [of "\<lparr> log = Std Stdout, verbosity = 2, subparser_name = None,
      action = None, attrs = [] \<rparr>"]
    setup_logging_levels [of "\<lparr> log = Std Stdout, verbosity = 7, subparser_name = None,
      action = None, attrs = [] \<rparr>"]
  by simp

section \<open>Properties of the grouping helper\<close>



















section \<open>Properties of the version resolver\<close>


lemma git_version_bytes: "git_version (Bytes b) = Inl TypeError"
  by (simp add: git_version_def)

text \<open>On text the two groups give \<open>tag\<close>, or \<open>tag.devcommit\<close> when \<open>commit\<close> is not empty.\<close>

lemma git_version_str:
  "git_re_search s = Some (tag, commit) \<Longrightarrow>
     git_version (Str s) = Inr (if commit = '''' then tag else tag @ ''.dev'' @ commit)"
  by (simp add: git_version_def)








text \<open>
  C5. The claim describes what the code sets out to do, and on text the parse does it
  (\<open>git_version_str\<close>). But the describe query returns bytes, on which the search with
  the text pattern raises \<open>TypeError\<close>; the handler swallows it, and the output of git
  never reaches the result. At the output \<open>v0.1.2-38-g6a8e5e3\<close> the resolver answers
  \<open>0.0.0\<close> (no installed package), where the claim says \<open>0.1.2.dev38\<close>.
\<close>

theorem version_bytes_failing_input:
  "fst (version \<lparr> install_dir = ''/opt/c'',
       check_output = (\<lambda>c. Inr (Bytes (''v0.1.2-38-g6a8e5e3'' @ [CHR 0x0A]))),
       pkg_require = (\<lambda>n. Inl DistributionNotFound) \<rparr>) = Inr ''0.0.0''
   \<and> git_version (Str (''v0.1.2-38-g6a8e5e3'' @ [CHR 0x0A])) = Inr ''0.1.2.dev38''"
  by (simp add: version_def git_cmds_def git_attempt_def git_version_def or_default_def
      git_re_search_def digit_or_dot_def)



section \<open>Properties of sub-command discovery\<close>





lemma parse_subcommands_start:
  "parse_subcommands penv parser argv =
     discover penv (considered penv argv)
       (add_parser (add_subparsers parser) ''help'' help_parser, Map.empty)"
  by (simp add: parse_subcommands_def)





section \<open>The help sub-command is always there\<close>

lemma register_keeps_first:
  "register penv name modl (p, acts) = Inr (p', acts') \<Longrightarrow> subparsers p = Some (x # xs) \<Longrightarrow>
     \<exists>ys. subparsers p' = Some (x # ys)"
  by (auto simp: register_def add_parser_def split: option.splits sum.splits)

lemma discover_keeps_first:
  "fst (discover penv names (p, acts)) = Inr (p', acts') \<Longrightarrow> subparsers p = Some (x # xs) \<Longrightarrow>
     \<exists>ys. subparsers p' = Some (x # ys)"
proof (induction names arbitrary: p acts xs)
  case Nil
  then show ?case by simp
next
  case (Cons name names)
  show ?case
  proof (cases "import_module penv (dotted penv name)")
    case (Inl e)
    with Cons.prems(1) have "fst (discover penv names (p, acts)) = Inr (p', acts')"
      by (simp add: dotted_def split_beta split: if_splits)
    from Cons.IH [OF this Cons.prems(2)] show ?thesis .
  next
    case (Inr modl)
    show ?thesis
    proof (cases "register penv name modl (p, acts)")
      case (Inl e)
      with Inr Cons.prems(1) show ?thesis by (simp add: dotted_def)
    next
      case reg: (Inr st')
      obtain p1 acts1 where st': "st' = (p1, acts1)" by (cases st')
      from register_keeps_first [OF reg [unfolded st'] Cons.prems(2)]
      obtain ys where ys: "subparsers p1 = Some (x # ys)" by blast
      from Inr reg st' Cons.prems(1) have "fst (discover penv names (p1, acts1)) = Inr (p', acts')"
        by (simp add: dotted_def)
      from Cons.IH [OF this ys] show ?thesis .
    qed
  qed
qed

lemma discover_all_fail:
  assumes "\<forall>name\<in>set names. \<exists>e. import_module penv (dotted penv name) = Inl e \<and> is_Exception e"
  shows "fst (discover penv names st) = Inr st"
  using assms by (induction names) (auto simp: dotted_def split_beta)

lemma considered_subset: "set (considered penv argv) \<subseteq> set (modules penv)"
  by (auto simp: considered_def Let_def)

lemma register_names:
  "register penv name modl (p, acts) = Inr (p', acts') \<Longrightarrow> subparsers p = Some sps \<Longrightarrow>
     \<exists>sp. subparsers p' = Some (sps @ [(name, sp)])"
  by (auto simp: register_def add_parser_def split: option.splits sum.splits)

lemma discover_names:
  "fst (discover penv names (p, acts)) = Inr (p', acts') \<Longrightarrow> subparsers p = Some sps \<Longrightarrow>
     \<exists>more. subparsers p' = Some (sps @ more)
       \<and> fst ` set more \<subseteq> {name \<in> set names. imports_ok penv name}"
proof (induction names arbitrary: p acts sps)
  case Nil
  then show ?case by simp
next
  case (Cons name names)
  show ?case
  proof (cases "import_module penv (dotted penv name)")
    case (Inl e)
    with Cons.prems(1) have "fst (discover penv names (p, acts)) = Inr (p', acts')"
      by (simp add: dotted_def split_beta split: if_splits)
    from Cons.IH [OF this Cons.prems(2)] show ?thesis by auto
  next
    case (Inr modl)
    then have ok: "imports_ok penv name" by (simp add: imports_ok_def import_error_def)
    show ?thesis
    proof (cases "register penv name modl (p, acts)")
      case (Inl e)
      with Inr Cons.prems(1) show ?thesis by (simp add: dotted_def)
    next
      case reg: (Inr st')
      obtain p1 acts1 where st': "st' = (p1, acts1)" by (cases st')
      from register_names [OF reg [unfolded st'] Cons.prems(2)]
      obtain sp where sp: "subparsers p1 = Some (sps @ [(name, sp)])" by blast
      from Inr reg st' Cons.prems(1) have "fst (discover penv names (p1, acts1)) = Inr (p', acts')"
        by (simp add: dotted_def)
      from Cons.IH [OF this sp]
      obtain more where "subparsers p' = Some ((sps @ [(name, sp)]) @ more)"
        "fst ` set more \<subseteq> {name \<in> set names. imports_ok penv name}" by blast
      with ok have "subparsers p' = Some (sps @ ((name, sp) # more))"
        "fst ` set ((name, sp) # more) \<subseteq> {n \<in> set (name # names). imports_ok penv n}" by auto
      then show ?thesis by blast
    qed
  qed
qed

lemma find_help:
  assumes r: "fst (parse_subcommands penv parser argv) = Inr (p, acts)"
    and h: "''help'' \<notin> set (considered penv argv) \<or> \<not> imports_ok penv ''help''"
  shows "find_subparser p ''help'' = Some help_parser"
proof -
  have s: "subparsers (add_parser (add_subparsers parser) ''help'' help_parser)
      = Some [(''help'', help_parser)]"
    by (simp add: add_parser_def add_subparsers_def)
  from r have "fst (discover penv (considered penv argv)
      (add_parser (add_subparsers parser) ''help'' help_parser, Map.empty)) = Inr (p, acts)"
    by (simp add: parse_subcommands_start)
  from discover_names [OF this s] obtain more
    where m: "subparsers p = Some ([(''help'', help_parser)] @ more)"
      "fst ` set more \<subseteq> {name \<in> set (considered penv argv). imports_ok penv name}" by blast
  with h have "''help'' \<notin> fst ` set more" by blast
  then have "map_of (rev more) ''help'' = None" by (simp add: map_of_eq_None_iff)
  with m(1) show ?thesis by (simp add: find_subparser_def map_add_def)
qed

text \<open>
  C10, as stated, fails when the plugin directory holds a module named \<open>help\<close> that
  imports: its sub-parser is stored under the name \<open>help\<close> after the synthetic one, and
  the sub-parser that the grammar then has under that name is the plugin's, which has no
  positional argument.
\<close>

theorem help_replaced_counterexample:
  "(case fst (parse_subcommands (plugins shadowed_world) empty_parser []) of
      Inl e \<Rightarrow> None
    | Inr (p, acts) \<Rightarrow> find_subparser p ''help'')
   = Some \<lparr> sp_name = ''help'', sp_help = ''Does things'',
            sp_description = Some ''Does things'', sp_arguments = [] \<rparr>"
  by code_simp

text \<open>
  C10, amended. The \<open>help\<close> sub-parser, with its one positional argument, is added before
  the loop over the modules starts. So whenever \<open>parse_subcommands\<close> returns a parser,
  \<open>help\<close> is its first sub-parser; and the sub-parser that the grammar has under the name
  \<open>help\<close> is that one, provided that no module named \<open>help\<close> is among the considered
  modules or that module fails to import. When every module fails to import, with an
  exception that the loop catches, the parser returned has \<open>help\<close> as its only sub-parser
  and no handler is registered.
\<close>

theorem help_registered_before_discovery:
  "(\<forall>p acts. fst (parse_subcommands penv parser argv) = Inr (p, acts) \<longrightarrow>
        (\<exists>rest. subparsers p = Some ((''help'', help_parser) # rest))
        \<and> ''help'' \<in> set (subparser_names p)
        \<and> (''help'' \<notin> set (considered penv argv) \<or> \<not> imports_ok penv ''help'' \<longrightarrow>
             find_subparser p ''help'' = Some help_parser))
   \<and> ((\<forall>name\<in>set (modules penv).
          \<exists>e. import_module penv (dotted penv name) = Inl e \<and> is_Exception e) \<longrightarrow>
        fst (parse_subcommands penv parser argv)
          = Inr (parser\<lparr>subparsers := Some [(''help'', help_parser)]\<rparr>, Map.empty)
        \<and> find_subparser (parser\<lparr>subparsers := Some [(''help'', help_parser)]\<rparr>) ''help''
            = Some help_parser)
   \<and> sp_arguments help_parser = [Action_positional]"
proof (intro conjI allI impI)
  fix p acts
  assume r: "fst (parse_subcommands penv parser argv) = Inr (p, acts)"
  have s: "subparsers (add_parser (add_subparsers parser) ''help'' help_parser)
      = Some ((''help'', help_parser) # [])"
    by (simp add: add_parser_def add_subparsers_def)
  from r have "fst (discover penv (considered penv argv)
      (add_parser (add_subparsers parser) ''help'' help_parser, Map.empty)) = Inr (p, acts)"
    by (simp add: parse_subcommands_start)
  from discover_keeps_first [OF this s]
  show first: "\<exists>rest. subparsers p = Some ((''help'', help_parser) # rest)" .
  then show "''help'' \<in> set (subparser_names p)"
    by (auto simp: subparser_names_def)
  assume "''help'' \<notin> set (considered penv argv) \<or> \<not> imports_ok penv ''help''"
  with r show "find_subparser p ''help'' = Some help_parser" by (rule find_help)
next
  assume "\<forall>name\<in>set (modules penv).
      \<exists>e. import_module penv (dotted penv name) = Inl e \<and> is_Exception e"
  with considered_subset [of penv argv]
  have "\<forall>name\<in>set (considered penv argv).
      \<exists>e. import_module penv (dotted penv name) = Inl e \<and> is_Exception e"
    by blast
  from discover_all_fail [OF this]
  show "fst (parse_subcommands penv parser argv)
      = Inr (parser\<lparr>subparsers := Some [(''help'', help_parser)]\<rparr>, Map.empty)"
    by (simp add: parse_subcommands_start add_parser_def add_subparsers_def)
next
  show "find_subparser (parser\<lparr>subparsers := Some [(''help'', help_parser)]\<rparr>) ''help''
      = Some help_parser"
    by (simp add: find_subparser_def)
next
  show "sp_arguments help_parser = [Action_positional]" by (simp add: help_parser_def)
qed

theorem help_registered_before_discovery_witness:
  "fst (parse_subcommands
     \<lparr> subcommands_name = ''classifier.subcommands'',
       modules = [''classify'', ''filter''],
       import_module = (\<lambda>n. Inl ImportError),
       subcommands_build_parser = Inr,
       subcommands_action = Inr,
       plugin_parser = (\<lambda>sp args ns. Ok (ns, args)) \<rparr>
     empty_parser [''classify''])
   = Inr (empty_parser\<lparr>subparsers := Some [(''help'', help_parser)]\<rparr>, Map.empty)
   \<and> ''help'' \<in> set (subparser_names (empty_parser\<lparr>subparsers := Some [(''help'', help_parser)]\<rparr>))
   \<and> (\<exists>p acts. fst (parse_subcommands sample_plugins empty_parser [''classify'']) = Inr (p, acts)
        \<and> subparser_names p = [''help'', ''classify'']
        \<and> find_subparser p ''help'' = Some help_parser)"
proof -
  let ?penv = "\<lparr> subcommands_name = ''classifier.subcommands'',
       modules = [''classify'', ''filter''],
       import_module = (\<lambda>n. Inl ImportError),
       subcommands_build_parser = Inr,
       subcommands_action = Inr,
       plugin_parser = (\<lambda>sp args ns. Ok (ns, args)) \<rparr>"
  note t = help_registered_before_discovery [of ?penv empty_parser "[''classify'']"]
  have a: "\<forall>name\<in>set (modules ?penv).
      \<exists>e. import_module ?penv (dotted ?penv name) = Inl e \<and> is_Exception e"
    by simp
  from t a have r: "fst (parse_subcommands ?penv empty_parser [''classify''])
      = Inr (empty_parser\<lparr>subparsers := Some [(''help'', help_parser)]\<rparr>, Map.empty)"
    by blast
  with t have h: "''help'' \<in> set (subparser_names (empty_parser\<lparr>subparsers := Some [(''help'', help_parser)]\<rparr>))"
    by blast
  let ?sp = "\<lparr> sp_name = ''classify'', sp_help = ''Does things'',
      sp_description = Some ''Does things'', sp_arguments = [] \<rparr>"
  let ?p = "empty_parser\<lparr>subparsers := Some [(''help'', help_parser), (''classify'', ?sp)]\<rparr>"
  have c: "considered sample_plugins [''classify''] = [''classify'']"
    by (simp add: considered_def sample_plugins_def)
  have s: "fst (parse_subcommands sample_plugins empty_parser [''classify''])
      = Inr (?p, [''classify'' \<mapsto> (\<lambda>ns. Inr ''done'')])"
    unfolding parse_subcommands_def Let_def c
    by (simp add: sample_plugins_def good_module_def register_def
        add_parser_def add_subparsers_def empty_parser_def first_line_def lstrip_def is_space_def)
  have n: "''help'' \<notin> set (considered sample_plugins [''classify''])
      \<or> \<not> imports_ok sample_plugins ''help''"
    by (simp add: c)
  from help_registered_before_discovery [of sample_plugins empty_parser "[''classify'']"] s n
  have "find_subparser ?p ''help'' = Some help_parser" by blast
  moreover have "subparser_names ?p = [''help'', ''classify'']"
    by (simp add: subparser_names_def)
  ultimately show ?thesis using r h s by blast
qed

section \<open>Properties of the verbosity flags\<close>

lemma prescan_find:
  "find_action (options (parse_args empty_parser)) ''-v'' = Some Count_verbosity"
  "find_action (options (parse_args empty_parser)) ''--verbose'' = Some Count_verbosity"
  "find_action (options (parse_args empty_parser)) ''-q'' = Some (Store_const_verbosity 0)"
  "find_action (options (parse_args empty_parser)) ''--quiet'' = Some (Store_const_verbosity 0)"
  by (simp_all add: prescan_options find_action_def)

lemma prescan_classify_flags:
  "louder t \<or> quiet t \<Longrightarrow> classify (flags_of (options (parse_args empty_parser))) t = Known t None"
  by (rule classify_flag) (auto simp: louder_def quiet_def prescan_flags)

lemma not_left_alone: "louder t \<or> quiet t \<Longrightarrow> \<not> left_alone t"
  by (auto simp: left_alone_def prescan_classify_flags)


lemma step_louder:
  assumes "louder t" "st_mode st = Normal" "\<not> st_dd st"
  shows "step fs view (options (parse_args empty_parser)) t st
      = st\<lparr>st_ns := (st_ns st)\<lparr>verbosity := verbosity (st_ns st) + 1\<rparr>\<rparr>"
proof -
  from assms(1) have ne: "t \<noteq> ''--''" by (auto simp: louder_def)
  from assms(1) have f: "find_action (options (parse_args empty_parser)) t = Some Count_verbosity"
    by (auto simp: louder_def prescan_find)
  from assms ne f prescan_classify_flags [of t] show ?thesis
    by (simp add: step_def read_token_def expand_def run_last_def)
qed

lemma step_quiet:
  assumes "quiet t" "st_mode st = Normal" "\<not> st_dd st"
  shows "step fs view (options (parse_args empty_parser)) t st
      = st\<lparr>st_ns := (st_ns st)\<lparr>verbosity := 0\<rparr>\<rparr>"
proof -
  from assms(1) have ne: "t \<noteq> ''--''" by (auto simp: quiet_def)
  from assms(1) have f: "find_action (options (parse_args empty_parser)) t
      = Some (Store_const_verbosity 0)"
    by (auto simp: quiet_def prescan_find)
  from assms ne f prescan_classify_flags [of t] show ?thesis
    by (simp add: step_def read_token_def expand_def run_last_def)
qed

lemma step_left_alone:
  assumes "left_alone t" "st_mode st = Normal" "\<not> st_dd st" "st_pos st = No_positional"
  shows "step fs view (options (parse_args empty_parser)) t st
      = st\<lparr>st_extras := st_extras st @ [t]\<rparr>"
  using assms by (auto simp: left_alone_def step_def read_token_def take_positional_def)

lemma fold_step_flags:
  assumes "\<forall>t\<in>set ts. louder t \<or> quiet t \<or> left_alone t"
    and "st_mode st = Normal" "\<not> st_dd st" "st_pos st = No_positional"
  shows "fold (step fs view (options (parse_args empty_parser))) ts st
      = st\<lparr>st_ns := (st_ns st)\<lparr>verbosity := count_verbosity (verbosity (st_ns st)) ts\<rparr>,
           st_extras := st_extras st @ filter left_alone ts\<rparr>"
  using assms
proof (induction ts arbitrary: st)
  case Nil
  then show ?case by simp
next
  case (Cons t ts)
  let ?step = "step fs view (options (parse_args empty_parser))"
  from Cons.prems(1) have rest: "\<forall>t\<in>set ts. louder t \<or> quiet t \<or> left_alone t" by simp
  from Cons.prems(1) consider (l) "louder t" | (q) "quiet t" "\<not> louder t"
    | (p) "left_alone t" "\<not> louder t" "\<not> quiet t" by auto
  then show ?case
  proof cases
    case l
    let ?st = "st\<lparr>st_ns := (st_ns st)\<lparr>verbosity := verbosity (st_ns st) + 1\<rparr>\<rparr>"
    have s: "?step t st = ?st" using l Cons.prems(2,3) by (rule step_louder)
    from Cons.IH [of ?st, OF rest] Cons.prems(2,3,4) s l not_left_alone [of t] show ?thesis by simp
  next
    case q
    let ?st = "st\<lparr>st_ns := (st_ns st)\<lparr>verbosity := 0\<rparr>\<rparr>"
    have s: "?step t st = ?st" using q(1) Cons.prems(2,3) by (rule step_quiet)
    from Cons.IH [of ?st, OF rest] Cons.prems(2,3,4) s q not_left_alone [of t] show ?thesis by simp
  next
    case p
    let ?st = "st\<lparr>st_extras := st_extras st @ [t]\<rparr>"
    have s: "?step t st = ?st" using p(1) Cons.prems(2,3,4) by (rule step_left_alone)
    from Cons.IH [of ?st, OF rest] Cons.prems(2,3,4) s p show ?thesis by simp
  qed
qed

lemma prescan_flags_only:
  assumes "\<forall>t\<in>set argv. louder t \<or> quiet t \<or> left_alone t"
  shows "prescan w argv
      = Ok (default_namespace\<lparr>verbosity := count_verbosity 0 argv\<rparr>, filter left_alone argv)"
proof -
  let ?st = "\<lparr> st_mode = Normal, st_dd = False, st_pos = No_positional,
      st_ns = default_namespace, st_extras = [] \<rparr>"
  from fold_step_flags [OF assms, of ?st "files w" "Help_of_parser (parse_args empty_parser)"]
  show ?thesis
    by (simp add: prescan_def parse_known_args_def walk_def prescan_options(2) finish_def
        default_namespace_def)
qed


lemma count_verbosity_no_quiet:
  "\<forall>t\<in>set ts. \<not> quiet t \<Longrightarrow> count_verbosity v ts = v + int (length (filter louder ts))"
  by (induction ts arbitrary: v) simp_all






section \<open>Properties of the help sub-command\<close>

lemma classify_positional: "\<not> prefix ''-'' t \<Longrightarrow> classify flags t = Positional"
  by (cases t) (auto simp: classify_def)

lemma left_alone_plain: "\<not> prefix ''-'' t \<Longrightarrow> left_alone t"
  by (auto simp: left_alone_def classify_positional)

lemma left_alone_h: "left_alone ''-h''"
  by (simp add: left_alone_def prescan_classify_h)

lemma considered_help:
  assumes "''help'' \<notin> set (modules penv)" "\<forall>m\<in>set (modules penv). \<not> prefix ''-'' m"
  shows "considered penv [''help'', x] = considered penv [x, ''-h'']"
proof -
  from assms(2) have "''-h'' \<notin> set (modules penv)" by auto
  with assms(1) have "filter (\<lambda>m. m \<in> set [''help'', x]) (modules penv)
      = filter (\<lambda>m. m \<in> set [x, ''-h'']) (modules penv)"
    by (intro filter_cong) auto
  then show ?thesis by (simp only: considered_def)
qed

lemma help_subparser_one:
  assumes "\<not> prefix ''-'' x"
  shows "run_subparser fs pp help_parser [x] ns = Ok (ns\<lparr>action := Some [x]\<rparr>, [])"
proof -
  from assms have "x \<noteq> ''--''" by auto
  with assms show ?thesis
    by (simp add: run_subparser_def help_parser_def walk_single read_token_def
        classify_positional take_positional_def finish_def)
qed

lemma parse_help_x:
  assumes f: "find_subparser p ''help'' = Some help_parser"
    and s: "subparsers p \<noteq> None"
    and x: "\<not> prefix ''-'' x"
  shows "parser_parse_args fs pp p [''help'', x] ns
      = Ok (ns\<lparr>subparser_name := Some ''help'', action := Some [x]\<rparr>)"
proof -
  from s obtain sps where sps: "subparsers p = Some sps" by blast
  have w: "walk fs (Help_of_parser p) (options p) Sub_command [''help'', x] ns
      = \<lparr> st_mode = Sub ''help'' [x], st_dd = False, st_pos = No_positional, st_ns = ns,
          st_extras = [] \<rparr>"
    by (simp add: walk_pair read_token_def classify_positional take_positional_def step_def)
  from f help_subparser_one [OF x, of fs pp "ns\<lparr>subparser_name := Some ''help''\<rparr>"]
  have "run_subcommand fs pp p ''help'' [x] ns
      = Ok (ns\<lparr>subparser_name := Some ''help'', action := Some [x]\<rparr>, [])"
    by (simp add: run_subcommand_def)
  with w sps show ?thesis
    by (simp add: parser_parse_args_def parse_known_args_def finish_def)
qed

lemma main_stop: "fst (run_parsers w argv) = Stop out \<Longrightarrow> fst (main w argv) = out"
  by (subst main.simps) (auto split: prod.splits)

lemma main_help:
  assumes "fst (run_parsers w argv) = Ok (ns, acts)"
    and "subparser_name ns = Some ''help''" "action ns = Some (a # rest)"
  shows "fst (main w argv) = fst (main w [a, ''-h''])"
  using assms by (subst main.simps) (auto split: prod.splits)



lemma prescan_left_alone:
  assumes "\<forall>t\<in>set argv. left_alone t"
  shows "prescan w argv = Ok (default_namespace, argv)"
proof -
  from assms have nq: "\<forall>t\<in>set argv. \<not> quiet t" and nl: "\<forall>t\<in>set argv. \<not> louder t"
    using not_left_alone by blast+
  from nl have "filter louder argv = []" by (simp add: filter_empty_conv)
  with count_verbosity_no_quiet [OF nq, of 0] have c: "count_verbosity 0 argv = 0" by simp
  from assms have f: "filter left_alone argv = argv" by (simp add: filter_id_conv)
  from assms have "\<forall>t\<in>set argv. louder t \<or> quiet t \<or> left_alone t" by blast
  from prescan_flags_only [OF this, of w] c f show ?thesis
    by (simp add: default_namespace_def)
qed

text \<open>
  C1, as stated, fails when the plugin directory holds a module named \<open>help\<close>: for the
  argument list \<open>help classify\<close> that module is among the considered ones, its
  sub-parser is added under the name \<open>help\<close> after the synthetic one and replaces it, and
  the argument \<open>classify\<close> is parsed by the plugin's grammar (here one without
  positionals, so the run ends in a usage error), while \<open>classify -h\<close> prints the help of
  \<open>classify\<close>.
\<close>

theorem help_shadowed_counterexample:
  "fst (main shadowed_world [''help'', ''classify'']) \<noteq> fst (main shadowed_world [''classify'', ''-h''])"
proof -
  have l: "fst (main shadowed_world [''help'', ''classify''])
      = Exited 2 (Usage (Unrecognized_arguments [''classify'']))"
    by code_simp
  have r: "fst (main shadowed_world [''classify'', ''-h''])
      = Exited 0 (Help_of_subparser
          \<lparr> sp_name = ''classify'', sp_help = ''Does things'',
            sp_description = Some ''Does things'', sp_arguments = [] \<rparr>)"
    by code_simp
  show ?thesis unfolding l r by simp
qed

text \<open>
  C1, amended. Provided that no plugin module is named \<open>help\<close> and no module name
  begins with \<open>-\<close> (so that \<open>argparse\<close> reads a module name as a positional), for every
  plugin module \<open>x\<close> the call of \<open>main\<close> on \<open>['help', x]\<close> ends as the call on
  \<open>[x, '-h']\<close> does: when the parse yields the sub-command \<open>help\<close>, \<open>main\<close> calls
  itself on \<open>[x, '-h']\<close> and returns that result; and when the version resolver or the
  discovery raises first, it raises the same in both calls.
\<close>

theorem help_equivalence:
  assumes h: "''help'' \<notin> set (modules (plugins w))"
    and d: "\<forall>m\<in>set (modules (plugins w)). \<not> prefix ''-'' m"
    and x: "x \<in> set (modules (plugins w))"
  shows "fst (main w [''help'', x]) = fst (main w [x, ''-h''])"
proof -
  let ?fs = "files w" and ?pp = "plugin_parser (plugins w)" and ?p0 = "parse_args empty_parser"
  from d x have nx: "\<not> prefix ''-'' x" by blast
  have "prescan w [''help'', x] = Ok (default_namespace, [''help'', x])"
    by (rule prescan_left_alone) (simp add: left_alone_plain nx)
  then have p1: "parse_known_args ?fs ?pp ?p0 [''help'', x] default_namespace
      = Ok (default_namespace, [''help'', x])" by (simp add: prescan_def)
  have "prescan w [x, ''-h''] = Ok (default_namespace, [x, ''-h''])"
    by (rule prescan_left_alone) (simp add: left_alone_plain nx left_alone_h)
  then have p2: "parse_known_args ?fs ?pp ?p0 [x, ''-h''] default_namespace
      = Ok (default_namespace, [x, ''-h''])" by (simp add: prescan_def)
  obtain rv lg1 where v: "parse_version (system w) ?p0 = (rv, lg1)"
    by (cases "parse_version (system w) ?p0")
  show ?thesis
  proof (cases rv)
    case (Inl e)
    from p1 v Inl have "fst (run_parsers w [''help'', x]) = Stop (Raised e)"
      by (simp add: run_parsers_def)
    moreover from p2 v Inl have "fst (run_parsers w [x, ''-h'']) = Stop (Raised e)"
      by (simp add: run_parsers_def)
    ultimately show ?thesis by (simp add: main_stop)
  next
    case (Inr p1')
    let ?p2 = "add_argument p1' ([''-h'', ''--help''], Print_help)"
    obtain rd lg2 where dsc: "parse_subcommands (plugins w) ?p2 [''help'', x] = (rd, lg2)"
      by (cases "parse_subcommands (plugins w) ?p2 [''help'', x]")
    from considered_help [OF h d, of x]
    have same: "parse_subcommands (plugins w) ?p2 [x, ''-h''] = (rd, lg2)"
      using dsc by (simp add: parse_subcommands_start)
    show ?thesis
    proof (cases rd)
      case (Inl e)
      from p1 v \<open>rv = Inr p1'\<close> dsc Inl have "fst (run_parsers w [''help'', x]) = Stop (Raised e)"
        by (simp add: run_parsers_def)
      moreover from p2 v \<open>rv = Inr p1'\<close> same Inl
      have "fst (run_parsers w [x, ''-h'']) = Stop (Raised e)"
        by (simp add: run_parsers_def)
      ultimately show ?thesis by (simp add: main_stop)
    next
      case found: (Inr pa)
      obtain p acts where pa: "pa = (p, acts)" by (cases pa)
      from dsc found pa
      have r: "fst (parse_subcommands (plugins w) ?p2 [''help'', x]) = Inr (p, acts)" by simp
      from h considered_subset [of "plugins w" "[''help'', x]"]
      have "''help'' \<notin> set (considered (plugins w) [''help'', x])" by blast
      then have "''help'' \<notin> set (considered (plugins w) [''help'', x])
          \<or> \<not> imports_ok (plugins w) ''help''" by simp
      from find_help [OF r this] have f: "find_subparser p ''help'' = Some help_parser" .
      from parse_subcommands_frame [OF r] have s: "subparsers p \<noteq> None" by simp
      from parse_help_x [OF f s nx, of ?fs ?pp default_namespace]
      have "parser_parse_args ?fs ?pp p [''help'', x] default_namespace
          = Ok (default_namespace\<lparr>subparser_name := Some ''help'', action := Some [x]\<rparr>)" .
      with p1 v \<open>rv = Inr p1'\<close> dsc found pa
      have "fst (run_parsers w [''help'', x])
          = Ok (default_namespace\<lparr>subparser_name := Some ''help'', action := Some [x]\<rparr>, acts)"
        by (simp add: run_parsers_def)
      from main_help [OF this] show ?thesis by simp
    qed
  qed
qed

theorem help_equivalence_witness:
  "fst (main sample_world [''help'', ''classify'']) = fst (main sample_world [''classify'', ''-h''])
   \<and> fst (main sample_world [''classify'', ''-h''])
       = Exited 0 (Help_of_subparser
          \<lparr> sp_name = ''classify'', sp_help = ''Does things'',
            sp_description = Some ''Does things'', sp_arguments = [] \<rparr>)"
proof
  show "fst (main sample_world [''help'', ''classify'']) = fst (main sample_world [''classify'', ''-h''])"
    by (rule help_equivalence) (simp_all add: sample_world_def sample_plugins_def)
  show "fst (main sample_world [''classify'', ''-h''])
       = Exited 0 (Help_of_subparser
          \<lparr> sp_name = ''classify'', sp_help = ''Does things'',
            sp_description = Some ''Does things'', sp_arguments = [] \<rparr>)"
    by code_simp
qed

end
